theory Spec2Isabelle
  imports Complex_Main "HOL-Library.Word" "HOL-Library.Sublist" "HOL-Library.Signed_Division"
begin

section \<open>Go values, errors and formatting\<close>

text \<open>
  The repository is two Go packages in one file: \<open>eventhub\<close> (an AMQP client for partitioned
  event streams and the claims-based security handshake) and \<open>iotdevice\<close> (the device client
  with its connection life cycle). The embedding follows the source function by function.
  Everything outside the repository (the AMQP library, the transport, the clock, the UUID
  generator, the Go scheduler) is an explicit argument of the function that uses it.
\<close>

text \<open>
  A \<open>float64\<close> as the conversion \<open>int(v)\<close> sees it: a finite value, an infinity, or not a number.
\<close>

datatype float64 = Finite rat | PosInf | NegInf | NaN

text \<open>
  The dynamic values an \<open>interface{}\<close> holds in this code: \<open>VNil\<close> is the nil interface (also
  what indexing a map at a missing key yields), the other constructors carry the dynamic type
  that a type assertion tests.
\<close>

datatype go_value =
    VNil
  | VBool bool
  | VInt int
  | VInt32 "32 word"
  | VInt64 "64 word"
  | VFloat64 float64
  | VString string
  | VStrings "string list"
  | VList "go_value list"
  | VMap "(string \<times> go_value) list"

text \<open>Indexing a \<open>map[string]interface{}\<close>: a missing key (and a nil map) gives the nil interface.\<close>

definition index :: "(string \<times> go_value) list \<Rightarrow> string \<Rightarrow> go_value" where
  "index m k = (case map_of m k of None \<Rightarrow> VNil | Some v \<Rightarrow> v)"

text \<open>
  Errors are values. \<open>ErrorsNew s\<close> is \<open>errors.New(s)\<close>; \<open>Errorf_code_description rc rd\<close> is
  \<open>fmt.Errorf("code = %d, description = %q", rc, rd)\<close>; \<open>Canceled\<close> and \<open>DeadlineExceeded\<close> are the
  two errors of package \<open>context\<close>; \<open>External s\<close> is an error made outside the repository (by
  the AMQP library, the transport or \<open>encoding/json\<close>).
\<close>

datatype error =
    ErrorsNew string
  | Errorf_code_description "32 word" go_value
  | Canceled
  | DeadlineExceeded
  | External string

text \<open>The verb \<open>%d\<close>: a decimal numeral, with a minus sign for a negative number.\<close>

definition digit :: "nat \<Rightarrow> char" where
  "digit d = ''0123456789'' ! d"

fun fmt_nat :: "nat \<Rightarrow> string" where
  "fmt_nat n = (if n < 10 then [digit n] else fmt_nat (n div 10) @ [digit (n mod 10)])"

declare fmt_nat.simps [simp del]

definition fmt_d :: "int \<Rightarrow> string" where
  "fmt_d i = (if i < 0 then CHR ''-'' # fmt_nat (nat (- i)) else fmt_nat (nat i))"

text \<open>
  The text of an error, as \<open>Error()\<close> returns it. The verb \<open>%q\<close> is Go's quoting of the operand
  (\<open>strconv.Quote\<close> for a string, a bad-verb notice for most other types); it belongs to the
  standard library and is the argument \<open>q\<close>.
\<close>

fun Error :: "(go_value \<Rightarrow> string) \<Rightarrow> error \<Rightarrow> string" where
  "Error q (ErrorsNew s) = s"
| "Error q (Errorf_code_description rc rd) =
     ''code = '' @ fmt_d (sint rc) @ '', description = '' @ q rd"
| "Error q Canceled = ''context canceled''"
| "Error q DeadlineExceeded = ''context deadline exceeded''"
| "Error q (External s) = s"

section \<open>Package eventhub\<close>

subsection \<open>AMQP messages and the session\<close>

record MessageProperties =
  MessageID :: go_value
  To :: string
  ReplyTo :: string
  CorrelationID :: go_value

text \<open>
  \<open>Properties\<close> is a pointer in the AMQP library (the code builds it with
  \<open>&amqp.MessageProperties{...}\<close>): \<open>None\<close> is the nil pointer of a message without a
  properties section.
\<close>

record Message =
  Value :: go_value
  Properties :: "MessageProperties option"
  ApplicationProperties :: "(string \<times> go_value) list"

datatype link_option =
    LinkSourceAddress string
  | LinkTargetAddress string
  | LinkSelectorFilter string

text \<open>
  The session is the broker's side of one exchange: whether a link opens, whether a send
  succeeds, and what the receive on the reply link yields for the request that was sent.
\<close>

record Session =
  NewSender :: "link_option list \<Rightarrow> error option"
  NewReceiver :: "link_option list \<Rightarrow> error option"
  Send :: "Message \<Rightarrow> error option"
  Receive :: "Message \<Rightarrow> error + Message"

text \<open>What a call does on the session, in order (deferred closes run last, newest first).\<close>

datatype amqp_op =
    SenderOpened "link_option list"
  | ReceiverOpened "link_option list"
  | Sent Message
  | Received Message
  | Accepted Message
  | SenderClosed
  | ReceiverClosed

subsection \<open>CheckMessageResponse\<close>

definition CheckMessageResponse :: "Message \<Rightarrow> error option" where
  "CheckMessageResponse msg =
     (case index (ApplicationProperties msg) ''status-code'' of
        VInt32 rc \<Rightarrow>
          if rc = 200 then None
          else Some (Errorf_code_description rc (index (ApplicationProperties msg) ''status-description''))
      | _ \<Rightarrow> Some (ErrorsNew ''unable to typecast status-code''))"

subsection \<open>PutToken\<close>

definition put_token_message :: "string \<Rightarrow> string \<Rightarrow> string \<Rightarrow> Message" where
  "put_token_message uuid audience token =
     \<lparr> Value = VString token,
       Properties = Some \<lparr> MessageID = VString uuid, To = ''$cbs'', ReplyTo = ''cbs'',
                           CorrelationID = VNil \<rparr>,
       ApplicationProperties =
         [(''operation'', VString ''put-token''),
          (''type'', VString ''servicebus.windows.net:sastoken''),
          (''name'', VString audience)] \<rparr>"

text \<open>\<open>uuid\<close> is the string \<open>uuid.NewV4().String()\<close> generated for the message id.\<close>

definition PutToken :: "Session \<Rightarrow> string \<Rightarrow> string \<Rightarrow> string \<Rightarrow> error option \<times> amqp_op list" where
  "PutToken sess uuid audience token =
     (let so = [LinkTargetAddress ''$cbs''];
          ro = [LinkSourceAddress ''$cbs''];
          m = put_token_message uuid audience token
      in case NewSender sess so of
           Some e \<Rightarrow> (Some e, [])
         | None \<Rightarrow>
          (case NewReceiver sess ro of
             Some e \<Rightarrow> (Some e, [SenderOpened so, SenderClosed])
           | None \<Rightarrow>
            (case Send sess m of
               Some e \<Rightarrow> (Some e, [SenderOpened so, ReceiverOpened ro, ReceiverClosed, SenderClosed])
             | None \<Rightarrow>
              (case Receive sess m of
                 Inl e \<Rightarrow>
                   (Some e, [SenderOpened so, ReceiverOpened ro, Sent m, ReceiverClosed, SenderClosed])
               | Inr msg \<Rightarrow>
                  (case CheckMessageResponse msg of
                     Some e \<Rightarrow>
                       (Some e, [SenderOpened so, ReceiverOpened ro, Sent m, Received msg,
                                 ReceiverClosed, SenderClosed])
                   | None \<Rightarrow>
                       (None, [SenderOpened so, ReceiverOpened ro, Sent m, Received msg,
                               Accepted msg, ReceiverClosed, SenderClosed]))))))"

subsection \<open>PutTokenContinuously\<close>

text \<open>
  The background goroutine is a loop around a \<open>select\<close> with two cases. A \<open>tick\<close> is the case
  the select takes: the timer of \<open>time.After\<close> fired, or \<open>stopCh\<close> was closed. The loop is run
  on the list of ticks that occur; when the list is used up the goroutine is still waiting.
  \<open>renewals k\<close> is the broker's side of the \<open>k\<close>-th renewal and the message id generated for it.
  The loop returns the lines it printed with \<open>log.Printf\<close> and whether the goroutine has ended.
\<close>

datatype tick = After | Stop

fun renewal_loop ::
  "(go_value \<Rightarrow> string) \<Rightarrow> (nat \<Rightarrow> Session \<times> string) \<Rightarrow> string \<Rightarrow> string \<Rightarrow> nat \<Rightarrow> tick list
     \<Rightarrow> string list \<times> bool" where
  "renewal_loop q renewals audience token k [] = ([], False)"
| "renewal_loop q renewals audience token k (Stop # ts) = ([], True)"
| "renewal_loop q renewals audience token k (After # ts) =
     (case fst (PutToken (fst (renewals k)) (snd (renewals k)) audience token) of
        Some e \<Rightarrow> ([''put token error: '' @ Error q e], True)
      | None \<Rightarrow> renewal_loop q renewals audience token (Suc k) ts)"

text \<open>
  The call returns the error of the first handshake, or nil after starting the goroutine:
  the second component is \<open>None\<close> when no goroutine was started, and the goroutine's run
  otherwise.
\<close>

definition PutTokenContinuously ::
  "(go_value \<Rightarrow> string) \<Rightarrow> Session \<times> string \<Rightarrow> (nat \<Rightarrow> Session \<times> string) \<Rightarrow> string \<Rightarrow> string
     \<Rightarrow> tick list \<Rightarrow> error option \<times> (string list \<times> bool) option" where
  "PutTokenContinuously q first renewals audience token ticks =
     (case fst (PutToken (fst first) (snd first) audience token) of
        Some e \<Rightarrow> (Some e, None)
      | None \<Rightarrow> (None, Some (renewal_loop q renewals audience token 0 ticks)))"

text \<open>
  Two readings used to state what the goroutine does: \<open>renew renewals audience token k\<close> is
  what the \<open>k\<close>-th renewal returns, and \<open>timer_ticks ticks\<close> is the number of times the timer
  fires before \<open>stopCh\<close> is closed (or before the ticks end).
\<close>

definition renew :: "(nat \<Rightarrow> Session \<times> string) \<Rightarrow> string \<Rightarrow> string \<Rightarrow> nat \<Rightarrow> error option" where
  "renew renewals audience token k =
     fst (PutToken (fst (renewals k)) (snd (renewals k)) audience token)"

definition timer_ticks :: "tick list \<Rightarrow> nat" where
  "timer_ticks ticks = length (takeWhile (\<lambda>t. t = After) ticks)"

subsection \<open>Close\<close>

text \<open>
  The client of package \<open>eventhub\<close>: \<open>eh_done\<close> says that the channel \<open>done\<close> is closed,
  \<open>eh_effects\<close> lists the calls made on the session and the connection. The mutex is held
  for the whole body, so concurrent calls run one after the other. The two arguments are
  what \<open>c.sess.Close()\<close> and \<open>c.conn.Close()\<close> return when they are called.
\<close>

datatype eventhub_effect = SessClose | ConnClose

record eventhub_Client =
  eh_done :: bool
  eh_effects :: "eventhub_effect list"

definition eventhub_Close ::
  "error option \<Rightarrow> error option \<Rightarrow> eventhub_Client \<Rightarrow> error option \<times> eventhub_Client" where
  "eventhub_Close sess_close conn_close c =
     (if eh_done c then (None, c)
      else (case sess_close of
              Some e \<Rightarrow> (Some e, c\<lparr>eh_done := True, eh_effects := eh_effects c @ [SessClose]\<rparr>)
            | None \<Rightarrow>
                (conn_close,
                 c\<lparr>eh_done := True, eh_effects := eh_effects c @ [SessClose, ConnClose]\<rparr>)))"

text \<open>
  A run of calls of \<open>Close\<close>, each with what the session and the connection would return
  to it.
\<close>

fun eventhub_Close_calls ::
  "(error option \<times> error option) list \<Rightarrow> eventhub_Client \<Rightarrow> error option list \<times> eventhub_Client" where
  "eventhub_Close_calls [] c = ([], c)"
| "eventhub_Close_calls (x # xs) c =
     (let (r, c') = eventhub_Close (fst x) (snd x) c; (rs, c'') = eventhub_Close_calls xs c'
      in (r # rs, c''))"

subsection \<open>getPartitionIDs\<close>

text \<open>
  A call returns a value, returns an error, or panics (the nil pointer dereference of
  \<open>msg.Properties.CorrelationID\<close> on a message without properties).
\<close>

datatype 'a outcome = Returned 'a | Failed error | Panic

definition management_request :: "string \<Rightarrow> string \<Rightarrow> string \<Rightarrow> Message" where
  "management_request msgID replyTo name =
     \<lparr> Value = VNil,
       Properties = Some \<lparr> MessageID = VString msgID, To = [], ReplyTo = replyTo,
                           CorrelationID = VNil \<rparr>,
       ApplicationProperties =
         [(''operation'', VString ''READ''),
          (''name'', VString name),
          (''type'', VString ''com.microsoft:eventhub'')] \<rparr>"

text \<open>The part of \<open>getPartitionIDs\<close> after \<open>recv.Receive\<close> has returned a message.\<close>

definition partition_ids_of_response :: "string \<Rightarrow> Message \<Rightarrow> string list outcome \<times> amqp_op list" where
  "partition_ids_of_response msgID msg =
     (case CheckMessageResponse msg of
        Some e \<Rightarrow> (Failed e, [])
      | None \<Rightarrow>
         (case Properties msg of
            None \<Rightarrow> (Panic, [])
          | Some props \<Rightarrow>
              if CorrelationID props \<noteq> VString msgID
              then (Failed (ErrorsNew ''message-id mismatch''), [])
              else (case Value msg of
                      VMap val \<Rightarrow>
                        (case index val ''partition_ids'' of
                           VStrings ids \<Rightarrow> (Returned ids, [Accepted msg])
                         | _ \<Rightarrow> (Failed (ErrorsNew ''unable to typecast partition_ids''), [Accepted msg]))
                    | _ \<Rightarrow> (Failed (ErrorsNew ''unable to typecast value''), [Accepted msg]))))"

text \<open>\<open>replyTo\<close> and \<open>msgID\<close> are the two strings generated with \<open>uuid.NewV4().String()\<close>.\<close>

definition getPartitionIDs ::
  "Session \<Rightarrow> string \<Rightarrow> string \<Rightarrow> string \<Rightarrow> string list outcome \<times> amqp_op list" where
  "getPartitionIDs sess replyTo msgID name =
     (let ro = [LinkSourceAddress ''$management'', LinkTargetAddress replyTo];
          so = [LinkTargetAddress ''$management'', LinkSourceAddress replyTo];
          m = management_request msgID replyTo name
      in case NewReceiver sess ro of
           Some e \<Rightarrow> (Failed e, [])
         | None \<Rightarrow>
          (case NewSender sess so of
             Some e \<Rightarrow> (Failed e, [ReceiverOpened ro, ReceiverClosed])
           | None \<Rightarrow>
            (case Send sess m of
               Some e \<Rightarrow> (Failed e, [ReceiverOpened ro, SenderOpened so, SenderClosed, ReceiverClosed])
             | None \<Rightarrow>
              (case Receive sess m of
                 Inl e \<Rightarrow>
                   (Failed e, [ReceiverOpened ro, SenderOpened so, Sent m, SenderClosed, ReceiverClosed])
               | Inr msg \<Rightarrow>
                   (fst (partition_ids_of_response msgID msg),
                    [ReceiverOpened ro, SenderOpened so, Sent m, Received msg]
                      @ snd (partition_ids_of_response msgID msg)
                      @ [SenderClosed, ReceiverClosed])))))"

subsection \<open>SubscribePartitions: opening the receivers\<close>

text \<open>
  \<open>time.Now().UnixNano()/int64(time.Millisecond)\<close>: a clock reading in nanoseconds, divided
  with Go's truncating division. The filter is the string that \<open>fmt.Sprintf\<close> builds.
\<close>

definition millis :: "int \<Rightarrow> int" where
  "millis unix_nano = unix_nano sdiv 1000000"

definition enqueued_filter :: "int \<Rightarrow> string" where
  "enqueued_filter ms = ''amqp.annotation.x-opt-enqueuedtimeutc > '' @ [CHR 0x27] @ fmt_d ms @ [CHR 0x27]"

definition partition_address :: "string \<Rightarrow> string \<Rightarrow> string \<Rightarrow> string" where
  "partition_address name cgroup pid = ''/'' @ name @ ''/ConsumerGroups/'' @ cgroup @ ''/Partitions/'' @ pid"

text \<open>
  The loop over the partition ids. \<open>now k\<close> is the \<open>k\<close>-th reading of the clock in the call
  (\<open>time.Now()\<close> is read once for each receiver). The result is the options of the
  receivers opened, one for each id, or the error of the first receiver that does not open.
\<close>

fun open_receivers ::
  "Session \<Rightarrow> (nat \<Rightarrow> int) \<Rightarrow> string \<Rightarrow> string \<Rightarrow> nat \<Rightarrow> string list \<Rightarrow> error + link_option list list" where
  "open_receivers sess now name cgroup k [] = Inr []"
| "open_receivers sess now name cgroup k (pid # ids) =
     (let opts = [LinkSourceAddress (partition_address name cgroup pid),
                  LinkSelectorFilter (enqueued_filter (millis (now k)))]
      in case NewReceiver sess opts of
           Some e \<Rightarrow> Inl e
         | None \<Rightarrow>
            (case open_receivers sess now name cgroup (Suc k) ids of
               Inl e \<Rightarrow> Inl e
             | Inr rs \<Rightarrow> Inr (opts # rs)))"

text \<open>
  The broker's reading of a selector filter, outside the repository: the filter
  \<open>amqp.annotation.x-opt-enqueuedtimeutc > 'n'\<close> admits the messages whose enqueue time, in
  milliseconds, is greater than \<open>n\<close>. \<open>selector_threshold\<close> reads \<open>n\<close> back from the string.
\<close>

definition digit_value :: "char \<Rightarrow> nat option" where
  "digit_value c =
     (let n = (of_char c :: nat) in if 48 \<le> n \<and> n \<le> 57 then Some (n - 48) else None)"

fun parse_nat :: "nat \<Rightarrow> string \<Rightarrow> nat option" where
  "parse_nat acc [] = Some acc"
| "parse_nat acc (c # cs) =
     (case digit_value c of None \<Rightarrow> None | Some d \<Rightarrow> parse_nat (10 * acc + d) cs)"

definition parse_d :: "string \<Rightarrow> int option" where
  "parse_d s =
     (case s of
        [] \<Rightarrow> None
      | c # cs \<Rightarrow>
          if c = CHR ''-'' then (if cs = [] then None else map_option (\<lambda>n. - int n) (parse_nat 0 cs))
          else map_option int (parse_nat 0 s))"

definition selector_threshold :: "string \<Rightarrow> int option" where
  "selector_threshold expr =
     (let p = ''amqp.annotation.x-opt-enqueuedtimeutc > '' @ [CHR 0x27];
          r = drop (length p) expr
      in if take (length p) expr = p \<and> r \<noteq> [] \<and> last r = CHR 0x27
         then parse_d (butlast r) else None)"

fun selector_of :: "link_option list \<Rightarrow> string option" where
  "selector_of [] = None"
| "selector_of (LinkSelectorFilter expr # os) = Some expr"
| "selector_of (_ # os) = selector_of os"

definition admits :: "link_option list \<Rightarrow> int \<Rightarrow> bool" where
  "admits opts enqueued_ms =
     (case selector_of opts of
        None \<Rightarrow> True
      | Some expr \<Rightarrow>
          (case selector_threshold expr of None \<Rightarrow> False | Some n \<Rightarrow> n < enqueued_ms))"

subsection \<open>SubscribePartitions: the fan-in\<close>

text \<open>
  After the receivers are opened the call runs \<open>length ids\<close> receiver goroutines and the
  loop around the \<open>select\<close> over \<open>msgc\<close> and \<open>errc\<close>. A receiver goroutine is at its call of
  \<open>r.Receive\<close>, at \<open>msgc <- msg\<close> with the message it accepted, at \<open>errc <- err\<close>, or has
  returned. Both channels are buffered with capacity \<open>length ids\<close>, which is the length of
  \<open>recvs\<close>. \<open>dispatched\<close> lists the messages for which \<open>go f(msg)\<close> was executed: the
  messages delivered to the callback. The callback runs in a goroutine of its own:
  \<open>pending\<close> are the dispatched messages on which \<open>f\<close> has not started yet, \<open>invoked\<close> those
  on which it has. \<open>returned\<close> is the error the call returned with; \<open>cancelled\<close> says that
  the context shared by all receivers is done: the deferred \<open>cancel()\<close> has run, or the
  context of the caller, from which it is derived, is done. In the source a
  receiver goroutine starts as soon as its receiver is opened; opening the later receivers
  touches neither channel, so every such execution is one of the executions below, in
  which the goroutines take their steps after the last receiver is opened.
\<close>

datatype receiver = AtReceive | AtSendMsg Message | AtSendErr error | Exited

record fanin =
  recvs :: "receiver list"
  msgc :: "Message list"
  errc :: "error list"
  accepted :: "Message list"
  dispatched :: "Message list"
  pending :: "Message list"
  invoked :: "Message list"
  cancelled :: bool
  returned :: "error option"

text \<open>
  One step of one goroutine, chosen by the scheduler: \<open>Recv i r\<close> is the return of
  \<open>r.Receive(ctx)\<close> in the goroutine of partition \<open>i\<close> with result \<open>r\<close> (the AMQP library
  decides it); \<open>SendMsg i\<close> and \<open>SendErr i\<close> complete a channel send, which needs room in
  the buffer; \<open>SelectMsg\<close> and \<open>SelectErr\<close> are the two cases of the select of the call
  itself, each possible when its channel holds a value; \<open>Invoke k\<close> starts the callback
  goroutine of the \<open>k\<close>-th pending message; \<open>CtxDone\<close> is the context of the caller becoming
  done. \<open>r.Receive(ctx)\<close> can return any message and any error of the link at any time, but
  an error of the context only when the context is done. A step that cannot be taken is
  \<open>None\<close>.
\<close>

fun context_error :: "error \<Rightarrow> bool" where
  "context_error Canceled = True"
| "context_error DeadlineExceeded = True"
| "context_error _ = False"

datatype action =
    Recv nat "error + Message"
  | SendMsg nat
  | SendErr nat
  | SelectMsg
  | SelectErr
  | Invoke nat
  | CtxDone

fun step :: "fanin \<Rightarrow> action \<Rightarrow> fanin option" where
  "step s (Recv i r) =
     (if i < length (recvs s) \<and> recvs s ! i = AtReceive
      then (case r of
              Inl e \<Rightarrow>
                if context_error e \<and> \<not> cancelled s then None
                else Some (s\<lparr>recvs := (recvs s)[i := AtSendErr e]\<rparr>)
            | Inr m \<Rightarrow> Some (s\<lparr>recvs := (recvs s)[i := AtSendMsg m], accepted := accepted s @ [m]\<rparr>))
      else None)"
| "step s (SendMsg i) =
     (if i < length (recvs s) \<and> length (msgc s) < length (recvs s)
      then (case recvs s ! i of
              AtSendMsg m \<Rightarrow> Some (s\<lparr>recvs := (recvs s)[i := AtReceive], msgc := msgc s @ [m]\<rparr>)
            | _ \<Rightarrow> None)
      else None)"
| "step s (SendErr i) =
     (if i < length (recvs s) \<and> length (errc s) < length (recvs s)
      then (case recvs s ! i of
              AtSendErr e \<Rightarrow> Some (s\<lparr>recvs := (recvs s)[i := Exited], errc := errc s @ [e]\<rparr>)
            | _ \<Rightarrow> None)
      else None)"
| "step s SelectMsg =
     (case returned s of
        Some _ \<Rightarrow> None
      | None \<Rightarrow>
         (case msgc s of
            [] \<Rightarrow> None
          | m # ms \<Rightarrow>
              Some (s\<lparr>msgc := ms, dispatched := dispatched s @ [m], pending := pending s @ [m]\<rparr>)))"
| "step s SelectErr =
     (case returned s of
        Some _ \<Rightarrow> None
      | None \<Rightarrow>
         (case errc s of
            [] \<Rightarrow> None
          | e # es \<Rightarrow> Some (s\<lparr>errc := es, cancelled := True, returned := Some e\<rparr>)))"
| "step s (Invoke k) =
     (if k < length (pending s)
      then Some (s\<lparr>pending := take k (pending s) @ drop (Suc k) (pending s),
                  invoked := invoked s @ [pending s ! k]\<rparr>)
      else None)"
| "step s CtxDone = Some (s\<lparr>cancelled := True\<rparr>)"

fun run :: "fanin \<Rightarrow> action list \<Rightarrow> fanin option" where
  "run s [] = Some s"
| "run s (a # as) = (case step s a of None \<Rightarrow> None | Some s' \<Rightarrow> run s' as)"

definition fanin_init :: "nat \<Rightarrow> fanin" where
  "fanin_init n =
     \<lparr> recvs = replicate n AtReceive, msgc = [], errc = [], accepted = [], dispatched = [],
       pending = [], invoked = [], cancelled = False, returned = None \<rparr>"

text \<open>
  The whole call on a schedule: discovery, the receivers, then the fan-in. The result is
  \<open>None\<close> when the schedule cannot be run or ends before the call has returned.
\<close>

definition SubscribePartitions ::
  "Session \<Rightarrow> string \<Rightarrow> string \<Rightarrow> (nat \<Rightarrow> int) \<Rightarrow> string \<Rightarrow> string \<Rightarrow> action list
     \<Rightarrow> (unit outcome \<times> Message list) option" where
  "SubscribePartitions sess replyTo msgID now name cgroup schedule =
     (case fst (getPartitionIDs sess replyTo msgID name) of
        Panic \<Rightarrow> Some (Panic, [])
      | Failed e \<Rightarrow> Some (Failed e, [])
      | Returned ids \<Rightarrow>
         (case open_receivers sess now name cgroup 0 ids of
            Inl e \<Rightarrow> Some (Failed e, [])
          | Inr rs \<Rightarrow>
             (case run (fanin_init (length ids)) schedule of
                None \<Rightarrow> None
              | Some s \<Rightarrow>
                 (case returned s of
                    None \<Rightarrow> None
                  | Some e \<Rightarrow> Some (Failed e, dispatched s)))))"

text \<open>
  Three readings of a run, used to state its properties. \<open>first_sent s as\<close> is the first
  error that a receiver goroutine sends on \<open>errc\<close> when the steps \<open>as\<close> are taken from \<open>s\<close>.
  \<open>errors_held s\<close> are the errors present in \<open>s\<close>; \<open>yielded as\<close> are the errors that calls of
  \<open>r.Receive\<close> return in \<open>as\<close>; \<open>exited s\<close> counts the receiver goroutines that have
  returned.
\<close>

fun first_sent :: "fanin \<Rightarrow> action list \<Rightarrow> error option" where
  "first_sent s [] = None"
| "first_sent s (a # as) =
     (case step s a of
        None \<Rightarrow> None
      | Some s' \<Rightarrow>
         (case a of
            SendErr i \<Rightarrow> (case recvs s ! i of AtSendErr e \<Rightarrow> Some e | _ \<Rightarrow> None)
          | _ \<Rightarrow> first_sent s' as))"

definition errors_held :: "fanin \<Rightarrow> error set" where
  "errors_held s = set (errc s) \<union> {e. AtSendErr e \<in> set (recvs s)} \<union> set_option (returned s)"

definition yielded :: "action list \<Rightarrow> error set" where
  "yielded as = {e. \<exists>i. Recv i (Inl e) \<in> set as}"

definition exited :: "fanin \<Rightarrow> nat" where
  "exited s = length (filter (\<lambda>r. r = Exited) (recvs s))"

section \<open>Package iotdevice\<close>

subsection \<open>The client and what it calls\<close>

type_synonym byte = "8 word"

text \<open>A slice or a map that can be nil is an option: \<open>None\<close> is nil, \<open>Some []\<close> an empty slice.\<close>

record common_Message =
  Payload :: "byte list option"
  cm_MessageID :: string
  cm_CorrelationID :: string
  cm_Properties :: "(string \<rightharpoonup> string) option"
  cm_TransportOptions :: "(string \<rightharpoonup> go_value) option"

type_synonym TwinState = "(string \<times> go_value) list"

text \<open>
  The calls that leave the file (the transport, the three multiplexers, the logger), as the
  client makes them, in order.
\<close>

datatype effect =
    TrConnect
  | TrSend common_Message
  | TrRetrieveTwinProperties
  | TrUpdateTwinProperties "byte list"
  | TrClose
  | EvMuxOnce
  | EvMuxSub
  | EvMuxClose error
  | TsMuxOnce
  | TsMuxSub
  | TsMuxClose error
  | DmMuxOnce
  | DmMuxHandle string
  | LoggerDebugf common_Message

text \<open>
  The client: \<open>ready\<close> and \<open>done_ch\<close> say that the channels \<open>ready\<close> and \<open>done\<close> are closed
  (a channel is closed once and stays closed); \<open>effects\<close> is the list of calls made so far.
\<close>

record Client =
  ready :: bool
  done_ch :: bool
  effects :: "effect list"

text \<open>
  What the code outside the file returns when the client calls it: the transport, the
  multiplexers (\<open>once\<close> with the transport's subscription as its setup, \<open>sub\<close>, \<open>handle\<close>)
  and \<open>encoding/json\<close>.
\<close>

record Env =
  tr_Connect :: "error option"
  tr_Send :: "common_Message \<Rightarrow> error option"
  tr_RetrieveTwinProperties :: "error + byte list"
  tr_UpdateTwinProperties :: "byte list \<Rightarrow> int \<times> error option"
  tr_Close :: "error option"
  evMux_once :: "error option"
  evMux_sub :: nat
  tsMux_once :: "error option"
  tsMux_sub :: nat
  dmMux_once :: "error option"
  dmMux_handle :: "string \<Rightarrow> error option"
  json_Unmarshal :: "byte list \<Rightarrow> error + TwinState \<times> TwinState"
  json_Marshal :: "TwinState \<Rightarrow> error + byte list"

text \<open>A context is done with an error (\<open>ctx.Err()\<close>) or not done (\<open>None\<close>).\<close>

type_synonym Context = "error option"

definition ErrClosed :: error where
  "ErrClosed = ErrorsNew ''closed''"

subsection \<open>Connect\<close>

text \<open>The write lock is held from the first line to the return.\<close>

definition Connect :: "Env \<Rightarrow> Client \<Rightarrow> error option \<times> Client" where
  "Connect env c =
     (if ready c then (Some (ErrorsNew ''already connected''), c)
      else (case tr_Connect env of
              None \<Rightarrow> (None, c\<lparr>ready := True, effects := effects c @ [TrConnect]\<rparr>)
            | Some e \<Rightarrow> (Some e, c\<lparr>effects := effects c @ [TrConnect]\<rparr>)))"

subsection \<open>checkConnection\<close>

text \<open>
  A \<open>select\<close> without a default case: each case is a receive from a channel and the result of
  its branch. A receive from a closed channel can proceed. When several cases can proceed Go
  takes one of them by a uniform pseudo-random choice, so the function gives the results
  that are possible, in the order of the cases. The empty list means that no case can
  proceed: the goroutine blocks.
\<close>

definition go_select :: "(bool \<times> 'a) list \<Rightarrow> 'a list" where
  "go_select cases = map snd (filter fst cases)"

definition checkConnection :: "Client \<Rightarrow> Context \<Rightarrow> error option list" where
  "checkConnection c ctx =
     go_select [(ready c, None), (done_ch c, Some ErrClosed), (ctx \<noteq> None, ctx)]"

subsection \<open>The data-plane operations\<close>

text \<open>
  Each operation gives its possible results, one for each possible result of
  \<open>checkConnection\<close>, with the client after the call.
\<close>

definition SubscribeEvents :: "Env \<Rightarrow> Client \<Rightarrow> Context \<Rightarrow> ((error + nat) \<times> Client) list" where
  "SubscribeEvents env c ctx =
     map (\<lambda>r. case r of
            Some e \<Rightarrow> (Inl e, c)
          | None \<Rightarrow>
             (case evMux_once env of
                Some e \<Rightarrow> (Inl e, c\<lparr>effects := effects c @ [EvMuxOnce]\<rparr>)
              | None \<Rightarrow> (Inr (evMux_sub env), c\<lparr>effects := effects c @ [EvMuxOnce, EvMuxSub]\<rparr>)))
       (checkConnection c ctx)"

definition RegisterMethod :: "Env \<Rightarrow> Client \<Rightarrow> Context \<Rightarrow> string \<Rightarrow> (error option \<times> Client) list" where
  "RegisterMethod env c ctx name =
     map (\<lambda>r. case r of
            Some e \<Rightarrow> (Some e, c)
          | None \<Rightarrow>
             if name = [] then (Some (ErrorsNew ''name cannot be blank''), c)
             else (case dmMux_once env of
                     Some e \<Rightarrow> (Some e, c\<lparr>effects := effects c @ [DmMuxOnce]\<rparr>)
                   | None \<Rightarrow>
                       (dmMux_handle env name,
                        c\<lparr>effects := effects c @ [DmMuxOnce, DmMuxHandle name]\<rparr>)))
       (checkConnection c ctx)"

text \<open>
  \<open>int(v)\<close> for a \<open>float64\<close>: the fraction is discarded; when the result does not fit an
  \<open>int\<close> (64 bits) the conversion still succeeds and its value depends on the
  implementation, which is the argument \<open>impl\<close>.
\<close>

definition float64_to_int :: "(float64 \<Rightarrow> int) \<Rightarrow> float64 \<Rightarrow> int" where
  "float64_to_int impl v =
     (case v of
        Finite r \<Rightarrow>
          (let t = (if 0 \<le> r then \<lfloor>r\<rfloor> else \<lceil>r\<rceil>)
           in if - (2 ^ 63) \<le> t \<and> t < 2 ^ 63 then t else impl v)
      | _ \<Rightarrow> impl v)"

text \<open>\<open>v, _ := s["$version"].(float64)\<close>: a failed assertion leaves the zero value in \<open>v\<close>.\<close>

definition Version :: "(float64 \<Rightarrow> int) \<Rightarrow> TwinState \<Rightarrow> int" where
  "Version impl s =
     (let v = (case index s ''$version'' of VFloat64 f \<Rightarrow> f | _ \<Rightarrow> Finite 0)
      in float64_to_int impl v)"

definition RetrieveTwinState ::
  "Env \<Rightarrow> Client \<Rightarrow> Context \<Rightarrow> ((error + TwinState \<times> TwinState) \<times> Client) list" where
  "RetrieveTwinState env c ctx =
     map (\<lambda>r. case r of
            Some e \<Rightarrow> (Inl e, c)
          | None \<Rightarrow>
             (case tr_RetrieveTwinProperties env of
                Inl e \<Rightarrow> (Inl e, c\<lparr>effects := effects c @ [TrRetrieveTwinProperties]\<rparr>)
              | Inr b \<Rightarrow> (json_Unmarshal env b, c\<lparr>effects := effects c @ [TrRetrieveTwinProperties]\<rparr>)))
       (checkConnection c ctx)"

definition UpdateTwinState ::
  "Env \<Rightarrow> Client \<Rightarrow> Context \<Rightarrow> TwinState \<Rightarrow> ((int \<times> error option) \<times> Client) list" where
  "UpdateTwinState env c ctx s =
     map (\<lambda>r. case r of
            Some e \<Rightarrow> ((0, Some e), c)
          | None \<Rightarrow>
             (case json_Marshal env s of
                Inl e \<Rightarrow> ((0, Some e), c)
              | Inr b \<Rightarrow>
                  (tr_UpdateTwinProperties env b,
                   c\<lparr>effects := effects c @ [TrUpdateTwinProperties b]\<rparr>)))
       (checkConnection c ctx)"

definition SubscribeTwinUpdates :: "Env \<Rightarrow> Client \<Rightarrow> Context \<Rightarrow> ((error + nat) \<times> Client) list" where
  "SubscribeTwinUpdates env c ctx =
     map (\<lambda>r. case r of
            Some e \<Rightarrow> (Inl e, c)
          | None \<Rightarrow>
             (case tsMux_once env of
                Some e \<Rightarrow> (Inl e, c\<lparr>effects := effects c @ [TsMuxOnce]\<rparr>)
              | None \<Rightarrow> (Inr (tsMux_sub env), c\<lparr>effects := effects c @ [TsMuxOnce, TsMuxSub]\<rparr>)))
       (checkConnection c ctx)"

subsection \<open>SendEvent and its options\<close>

text \<open>An option changes the message or fails.\<close>

type_synonym SendOption = "common_Message \<Rightarrow> error + common_Message"

definition WithSendQoS :: "int \<Rightarrow> SendOption" where
  "WithSendQoS qos msg =
     Inr (msg\<lparr>cm_TransportOptions :=
            Some ((case cm_TransportOptions msg of None \<Rightarrow> Map.empty | Some m \<Rightarrow> m)
                    (''qos'' \<mapsto> VInt qos))\<rparr>)"

definition WithSendMessageID :: "string \<Rightarrow> SendOption" where
  "WithSendMessageID mid msg = Inr (msg\<lparr>cm_MessageID := mid\<rparr>)"

definition WithSendCorrelationID :: "string \<Rightarrow> SendOption" where
  "WithSendCorrelationID cid msg = Inr (msg\<lparr>cm_CorrelationID := cid\<rparr>)"

definition WithSendProperty :: "string \<Rightarrow> string \<Rightarrow> SendOption" where
  "WithSendProperty k v msg =
     Inr (msg\<lparr>cm_Properties :=
            Some ((case cm_Properties msg of None \<Rightarrow> Map.empty | Some m \<Rightarrow> m)(k \<mapsto> v))\<rparr>)"

definition WithSendProperties :: "(string \<rightharpoonup> string) \<Rightarrow> SendOption" where
  "WithSendProperties m msg =
     Inr (msg\<lparr>cm_Properties :=
            Some ((case cm_Properties msg of None \<Rightarrow> Map.empty | Some m0 \<Rightarrow> m0) ++ m)\<rparr>)"

fun apply_opts :: "SendOption list \<Rightarrow> common_Message \<Rightarrow> error + common_Message" where
  "apply_opts [] msg = Inr msg"
| "apply_opts (opt # opts) msg =
     (case opt msg of Inl e \<Rightarrow> Inl e | Inr msg' \<Rightarrow> apply_opts opts msg')"

definition new_message :: "byte list option \<Rightarrow> common_Message" where
  "new_message payload =
     \<lparr> Payload = payload, cm_MessageID = [], cm_CorrelationID = [], cm_Properties = None,
       cm_TransportOptions = None \<rparr>"

definition SendEvent ::
  "Env \<Rightarrow> Client \<Rightarrow> Context \<Rightarrow> byte list option \<Rightarrow> SendOption list \<Rightarrow> (error option \<times> Client) list" where
  "SendEvent env c ctx payload opts =
     map (\<lambda>r. case r of
            Some e \<Rightarrow> (Some e, c)
          | None \<Rightarrow>
             if payload = None then (Some (ErrorsNew ''payload is nil''), c)
             else (case apply_opts opts (new_message payload) of
                     Inl e \<Rightarrow> (Some e, c)
                   | Inr msg \<Rightarrow>
                      (case tr_Send env msg of
                         Some e \<Rightarrow> (Some e, c\<lparr>effects := effects c @ [TrSend msg]\<rparr>)
                       | None \<Rightarrow>
                           (None, c\<lparr>effects := effects c @ [TrSend msg, LoggerDebugf msg]\<rparr>))))
       (checkConnection c ctx)"

subsection \<open>Close\<close>

text \<open>The write lock is held for the whole body.\<close>

definition Close :: "Env \<Rightarrow> Client \<Rightarrow> error option \<times> Client" where
  "Close env c =
     (if done_ch c then (None, c)
      else (tr_Close env,
            c\<lparr>done_ch := True,
              effects := effects c @ [EvMuxClose ErrClosed, TsMuxClose ErrClosed, TrClose]\<rparr>))"

text \<open>A run of calls of \<open>Close\<close>, each with what the transport would return to it.\<close>

fun Close_calls :: "Env list \<Rightarrow> Client \<Rightarrow> error option list \<times> Client" where
  "Close_calls [] c = ([], c)"
| "Close_calls (env # envs) c =
     (let (r, c') = Close env c; (rs, c'') = Close_calls envs c' in (r # rs, c''))"

section \<open>Concrete inputs\<close>

text \<open>A broker that opens every link, takes every message and answers with \<open>reply\<close>.\<close>

definition broker :: "Message \<Rightarrow> Session" where
  "broker reply =
     \<lparr> NewSender = (\<lambda>_. None), NewReceiver = (\<lambda>_. None), Send = (\<lambda>_. None),
       Receive = (\<lambda>_. Inr reply) \<rparr>"

definition response :: "32 word \<Rightarrow> string \<Rightarrow> Message" where
  "response rc rd =
     \<lparr> Value = VNil, Properties = None,
       ApplicationProperties = [(''status-code'', VInt32 rc), (''status-description'', VString rd)] \<rparr>"

text \<open>The same response with the status code sent as a 64-bit integer.\<close>

definition response_int64 :: "64 word \<Rightarrow> string \<Rightarrow> Message" where
  "response_int64 rc rd =
     \<lparr> Value = VNil, Properties = None,
       ApplicationProperties = [(''status-code'', VInt64 rc), (''status-description'', VString rd)] \<rparr>"

text \<open>
  The worst case of the conversion on amd64: a value that does not fit gives the least
  \<open>int\<close>.
\<close>

definition impl_amd64 :: "float64 \<Rightarrow> int" where
  "impl_amd64 v = - (2 ^ 63)"

text \<open>Renewals of which the first succeeds and every later one is refused.\<close>

definition renewals_failing :: "nat \<Rightarrow> Session \<times> string" where
  "renewals_failing k =
     (if k = 0 then (broker (response 200 ''OK''), ''u1'')
      else (broker (response 401 ''Unauthorized''), ''u2''))"

text \<open>The clients as \<open>Dial\<close> and \<open>New\<close> make them: both channels open, nothing called yet.\<close>

definition new_eventhub_Client :: eventhub_Client where
  "new_eventhub_Client = \<lparr> eh_done = False, eh_effects = [] \<rparr>"

definition new_Client :: Client where
  "new_Client = \<lparr> ready = False, done_ch = False, effects = [] \<rparr>"

text \<open>An environment in which every call succeeds.\<close>

definition env_ok :: Env where
  "env_ok =
     \<lparr> tr_Connect = None, tr_Send = (\<lambda>_. None), tr_RetrieveTwinProperties = Inr [],
       tr_UpdateTwinProperties = (\<lambda>_. (1, None)), tr_Close = None,
       evMux_once = None, evMux_sub = 0, tsMux_once = None, tsMux_sub = 0,
       dmMux_once = None, dmMux_handle = (\<lambda>_. None),
       json_Unmarshal = (\<lambda>_. Inr ([], [])), json_Marshal = (\<lambda>_. Inr []) \<rparr>"

definition refused :: error where
  "refused = External ''connection refused''"

text \<open>A client after a successful \<open>Connect\<close>, and the same client after \<open>Close\<close>.\<close>

definition ready_Client :: Client where
  "ready_Client = snd (Connect env_ok new_Client)"

definition closed_Client :: Client where
  "closed_Client = snd (Close env_ok ready_Client)"

definition failing_option :: SendOption where
  "failing_option msg = Inl (External ''bad option'')"

text \<open>
  The scenario of the specification: the stream "telemetry", the consumer group
  "$Default", the partitions "0" and "1"; partition "0" yields the message M1 and then an
  error, while a message of partition "1" waits in the buffer of \<open>msgc\<close>.
\<close>

definition management_response :: "string \<Rightarrow> string list \<Rightarrow> Message" where
  "management_response msgID ids =
     \<lparr> Value = VMap [(''partition_ids'', VStrings ids)],
       Properties = Some \<lparr> MessageID = VNil, To = [], ReplyTo = [], CorrelationID = VString msgID \<rparr>,
       ApplicationProperties = [(''status-code'', VInt32 200), (''status-description'', VString ''OK'')] \<rparr>"

definition event :: "string \<Rightarrow> Message" where
  "event body = \<lparr> Value = VString body, Properties = None, ApplicationProperties = [] \<rparr>"

definition detached :: error where
  "detached = External ''link detached''"

definition scenario :: "action list" where
  "scenario =
     [Recv 0 (Inr (event ''M1'')), SendMsg 0, Recv 1 (Inr (event ''M2'')), SelectMsg,
      Recv 0 (Inl detached), SendMsg 1, SendErr 0, SelectErr]"

text \<open>
  A second run: partition "0" fills the buffer of \<open>msgc\<close> with two messages and waits to
  send a third one when partition "1" yields the error with which the call returns.
\<close>

definition scenario_full_buffer :: "action list" where
  "scenario_full_buffer =
     [Recv 0 (Inr (event ''M1'')), SendMsg 0, Recv 0 (Inr (event ''M2'')), SendMsg 0,
      Recv 0 (Inr (event ''M3'')), Recv 1 (Inl detached), SendErr 1, SelectErr]"

text \<open>A clock that starts 123456789 ns after the second 1700000000 and advances 1 ns a reading.\<close>

definition clock :: "nat \<Rightarrow> int" where
  "clock k = 1700000000123456789 + int k"

section \<open>Properties of package eventhub\<close>

subsection \<open>The text of the status error\<close>

lemma Error_contains_code: "sublist (fmt_d (sint rc)) (Error q (Errorf_code_description rc rd))"
proof -
  have "Error q (Errorf_code_description rc rd) =
          ''code = '' @ fmt_d (sint rc) @ ('', description = '' @ q rd)"
    by simp
  then show ?thesis
    unfolding sublist_def by blast
qed

lemma Error_contains_description: "sublist (q rd) (Error q (Errorf_code_description rc rd))"
proof -
  have "Error q (Errorf_code_description rc rd) =
          (''code = '' @ fmt_d (sint rc) @ '', description = '') @ q rd @ []"
    by simp
  then show ?thesis
    unfolding sublist_def by blast
qed

lemma fmt_d_404: "fmt_d (sint (404 :: 32 word)) = ''404''"
  by (simp add: fmt_d_def fmt_nat.simps digit_def)

subsection \<open>CheckMessageResponse\<close>

text \<open>
  The check passes exactly for a \<open>status-code\<close> that is the 32-bit integer 200. A
  \<open>status-code\<close> of any other dynamic type, or none, gives the type assertion error.
\<close>

lemma CheckMessageResponse_None:
  "CheckMessageResponse msg = None \<longleftrightarrow> index (ApplicationProperties msg) ''status-code'' = VInt32 200"
  by (auto simp: CheckMessageResponse_def split: go_value.splits)

lemma CheckMessageResponse_not_int32:
  assumes "\<forall>rc. index (ApplicationProperties msg) ''status-code'' \<noteq> VInt32 rc"
  shows "CheckMessageResponse msg = Some (ErrorsNew ''unable to typecast status-code'')"
  using assms by (cases "index (ApplicationProperties msg) ''status-code''")
    (simp_all add: CheckMessageResponse_def)

subsection \<open>PutToken and the status code\<close>

lemma PutToken_received:
  assumes "NewSender sess [LinkTargetAddress ''$cbs''] = None"
    and "NewReceiver sess [LinkSourceAddress ''$cbs''] = None"
    and "Send sess (put_token_message uuid audience token) = None"
    and "Receive sess (put_token_message uuid audience token) = Inr msg"
  shows "fst (PutToken sess uuid audience token) = CheckMessageResponse msg"
  using assms by (simp add: PutToken_def Let_def split: option.splits)

lemma not_sublist_404: "\<not> sublist ''404'' ''unable to typecast status-code''"
  by code_simp

text \<open>
  The claim C6 as the specification states it fails for a status code that is not a
  32-bit integer: for the 64-bit integer 200 \<open>PutToken\<close> returns an error, and for the 64-bit
  integer 404 the text of the error does not contain "404".
\<close>

theorem PutToken_int64_status_counterexample:
  "fst (PutToken (broker (response_int64 200 ''OK'')) ''u'' ''aud'' ''tok'')
     = Some (ErrorsNew ''unable to typecast status-code'') \<and>
   fst (PutToken (broker (response_int64 404 ''Not Found'')) ''u'' ''aud'' ''tok'')
     = Some (ErrorsNew ''unable to typecast status-code'') \<and>
   \<not> sublist ''404'' ''unable to typecast status-code''"
  using not_sublist_404
  by (simp add: PutToken_def CheckMessageResponse_def broker_def response_int64_def index_def Let_def)

text \<open>
  Claim C6, amended. When both links open, the token message is sent and a response is
  received: \<open>PutToken\<close> returns nil if the \<open>status-code\<close> of the response is the 32-bit
  integer 200; if it is another 32-bit integer, \<open>PutToken\<close> returns an error whose text
  contains the decimal numeral of the code and the quoted \<open>status-description\<close> of the
  response; if it is absent or of any other type, \<open>PutToken\<close> returns the error
  "unable to typecast status-code".
\<close>

theorem PutToken_status_code:
  assumes "NewSender sess [LinkTargetAddress ''$cbs''] = None"
    and "NewReceiver sess [LinkSourceAddress ''$cbs''] = None"
    and "Send sess (put_token_message uuid audience token) = None"
    and "Receive sess (put_token_message uuid audience token) = Inr msg"
  shows "(index (ApplicationProperties msg) ''status-code'' = VInt32 200 \<longrightarrow>
            fst (PutToken sess uuid audience token) = None) \<and>
         (\<forall>rc. index (ApplicationProperties msg) ''status-code'' = VInt32 rc \<and> rc \<noteq> 200 \<longrightarrow>
            (\<exists>e. fst (PutToken sess uuid audience token) = Some e \<and>
                 sublist (fmt_d (sint rc)) (Error q e) \<and>
                 sublist (q (index (ApplicationProperties msg) ''status-description'')) (Error q e))) \<and>
         ((\<forall>rc. index (ApplicationProperties msg) ''status-code'' \<noteq> VInt32 rc) \<longrightarrow>
            fst (PutToken sess uuid audience token)
              = Some (ErrorsNew ''unable to typecast status-code''))"
proof -
  have r: "fst (PutToken sess uuid audience token) = CheckMessageResponse msg"
    using assms by (rule PutToken_received)
  have a: "index (ApplicationProperties msg) ''status-code'' = VInt32 200 \<Longrightarrow>
             CheckMessageResponse msg = None"
    by (simp add: CheckMessageResponse_None)
  have b: "\<exists>e. CheckMessageResponse msg = Some e \<and>
                 sublist (fmt_d (sint rc)) (Error q e) \<and>
                 sublist (q (index (ApplicationProperties msg) ''status-description'')) (Error q e)"
    if "index (ApplicationProperties msg) ''status-code'' = VInt32 rc" and "rc \<noteq> 200" for rc
    using that Error_contains_code Error_contains_description
    by (simp add: CheckMessageResponse_def del: Error.simps)
  have c: "\<forall>rc. index (ApplicationProperties msg) ''status-code'' \<noteq> VInt32 rc \<Longrightarrow>
             CheckMessageResponse msg = Some (ErrorsNew ''unable to typecast status-code'')"
    by (rule CheckMessageResponse_not_int32)
  from a b c show ?thesis
    unfolding r by blast
qed

theorem PutToken_status_code_witness:
  "\<forall>q. fst (PutToken (broker (response 200 ''OK'')) ''u'' ''aud'' ''tok'') = None \<and>
   (\<exists>e. fst (PutToken (broker (response 404 ''Not Found'')) ''u'' ''aud'' ''tok'') = Some e \<and>
        sublist ''404'' (Error q e) \<and>
        sublist (q (VString ''Not Found'')) (Error q e)) \<and>
   fst (PutToken (broker (response_int64 200 ''OK'')) ''u'' ''aud'' ''tok'')
     = Some (ErrorsNew ''unable to typecast status-code'')"
proof
  fix q :: "go_value \<Rightarrow> string"
  have ok: "fst (PutToken (broker (response 200 ''OK'')) ''u'' ''aud'' ''tok'') = None"
    using PutToken_status_code [of "broker (response 200 ''OK'')" "''u''" "''aud''" "''tok''"
        "response 200 ''OK''" q]
    by (simp add: broker_def response_def index_def)
  have missing:
    "\<exists>e. fst (PutToken (broker (response 404 ''Not Found'')) ''u'' ''aud'' ''tok'') = Some e \<and>
        sublist ''404'' (Error q e) \<and>
        sublist (q (VString ''Not Found'')) (Error q e)"
    using PutToken_status_code [of "broker (response 404 ''Not Found'')" "''u''" "''aud''" "''tok''"
        "response 404 ''Not Found''" q] fmt_d_404
    by (simp add: broker_def response_def index_def del: Error.simps)
  have other: "fst (PutToken (broker (response_int64 200 ''OK'')) ''u'' ''aud'' ''tok'')
     = Some (ErrorsNew ''unable to typecast status-code'')"
    using PutToken_status_code [of "broker (response_int64 200 ''OK'')" "''u''" "''aud''" "''tok''"
        "response_int64 200 ''OK''" q]
    by (simp add: broker_def response_int64_def index_def)
  from ok missing other
  show "fst (PutToken (broker (response 200 ''OK'')) ''u'' ''aud'' ''tok'') = None \<and>
   (\<exists>e. fst (PutToken (broker (response 404 ''Not Found'')) ''u'' ''aud'' ''tok'') = Some e \<and>
        sublist ''404'' (Error q e) \<and>
        sublist (q (VString ''Not Found'')) (Error q e)) \<and>
   fst (PutToken (broker (response_int64 200 ''OK'')) ''u'' ''aud'' ''tok'')
     = Some (ErrorsNew ''unable to typecast status-code'')"
    by simp
qed

subsection \<open>PutTokenContinuously and the renewals\<close>

text \<open>
  The goroutine prints nothing, or it has ended after printing the one line for the renewal
  that failed.
\<close>

lemma renewal_loop_log:
  "renewal_loop q renewals audience token k ticks = (lg, ended) \<Longrightarrow>
     lg = [] \<or> (ended \<and> (\<exists>j e. k \<le> j \<and> j < k + length ticks \<and>
                   fst (PutToken (fst (renewals j)) (snd (renewals j)) audience token) = Some e \<and>
                   lg = [''put token error: '' @ Error q e]))"
proof (induction q renewals audience token k ticks rule: renewal_loop.induct)
  case (1 q renewals audience token k)
  then show ?case by simp
next
  case (2 q renewals audience token k ts)
  then show ?case by simp
next
  case (3 q renewals audience token k ts)
  show ?case
  proof (cases "fst (PutToken (fst (renewals k)) (snd (renewals k)) audience token)")
    case None
    with 3 have "lg = [] \<or> (ended \<and> (\<exists>j e. Suc k \<le> j \<and> j < Suc k + length ts \<and>
                   fst (PutToken (fst (renewals j)) (snd (renewals j)) audience token) = Some e \<and>
                   lg = [''put token error: '' @ Error q e]))"
      by simp
    then show ?thesis
      by (auto intro: Suc_leD)
  next
    case (Some e)
    with 3 have "lg = [''put token error: '' @ Error q e]" and ended
      by simp_all
    with Some show ?thesis
      by (auto simp del: Error.simps)
  qed
qed

lemma fmt_d_401: "fmt_d (sint (401 :: 32 word)) = ''401''"
  by (simp add: fmt_d_def fmt_nat.simps digit_def)

text \<open>
  While every renewal succeeds the goroutine prints nothing, and it ends exactly when
  \<open>stopCh\<close> is closed.
\<close>

lemma renewal_loop_all_succeed:
  assumes "\<forall>j < timer_ticks ticks. renew renewals audience token (k + j) = None"
  shows "renewal_loop q renewals audience token k ticks = ([], timer_ticks ticks < length ticks)"
  using assms
proof (induction ticks arbitrary: k)
  case Nil
  then show ?case by (simp add: timer_ticks_def)
next
  case (Cons t ts)
  show ?case
  proof (cases t)
    case Stop
    then show ?thesis by (simp add: timer_ticks_def)
  next
    case After
    from Cons.prems After have k: "renew renewals audience token k = None"
      by (auto simp: timer_ticks_def)
    have "\<forall>j < timer_ticks ts. renew renewals audience token (Suc k + j) = None"
    proof (intro allI impI)
      fix j assume "j < timer_ticks ts"
      with After have "Suc j < timer_ticks (t # ts)"
        by (simp add: timer_ticks_def)
      with Cons.prems show "renew renewals audience token (Suc k + j) = None"
        by fastforce
    qed
    from Cons.IH [OF this] k After show ?thesis
      by (simp add: renew_def timer_ticks_def)
  qed
qed

text \<open>
  The first renewal that fails is logged with one line and ends the goroutine, whatever
  the ticks after it.
\<close>

lemma renewal_loop_first_failure:
  assumes "j < timer_ticks ticks"
    and "\<forall>i < j. renew renewals audience token (k + i) = None"
    and "renew renewals audience token (k + j) = Some e"
  shows "renewal_loop q renewals audience token k ticks = ([''put token error: '' @ Error q e], True)"
  using assms
proof (induction ticks arbitrary: k j)
  case Nil
  then show ?case by (simp add: timer_ticks_def)
next
  case (Cons t ts)
  from Cons.prems(1) have t: "t = After"
    by (cases t) (simp_all add: timer_ticks_def)
  show ?case
  proof (cases j)
    case 0
    with Cons.prems(3) t show ?thesis
      by (simp add: renew_def del: Error.simps)
  next
    case (Suc j')
    with Cons.prems(2) have k: "renew renewals audience token k = None"
      by force
    from Suc Cons.prems(1) t have a: "j' < timer_ticks ts"
      by (simp add: timer_ticks_def)
    have b: "\<forall>i < j'. renew renewals audience token (Suc k + i) = None"
    proof (intro allI impI)
      fix i assume "i < j'"
      with Suc have "Suc i < j" by simp
      with Cons.prems(2) show "renew renewals audience token (Suc k + i) = None"
        by fastforce
    qed
    from Suc Cons.prems(3) have c: "renew renewals audience token (Suc k + j') = Some e"
      by simp
    from Cons.IH [OF a b c] k t show ?thesis
      by (simp add: renew_def del: Error.simps)
  qed
qed

text \<open>
  Claim C7. \<open>PutTokenContinuously\<close> returns what the first handshake returns, whatever the
  timer, the stop channel and the later renewals do: an error exactly when the first
  handshake fails, and then no goroutine is started. After a first handshake that succeeds
  it returns nil and the goroutine runs one renewal for each firing of the timer. While
  the renewals succeed the goroutine prints nothing and ends only when \<open>stopCh\<close> is closed.
  The first renewal that fails is printed to the log in one line and ends the goroutine;
  the value returned by the call is nil all the same.
\<close>

theorem PutTokenContinuously_first_handshake:
  "fst (PutTokenContinuously q first renewals audience token ticks)
     = fst (PutToken (fst first) (snd first) audience token) \<and>
   (fst (PutToken (fst first) (snd first) audience token) \<noteq> None \<longrightarrow>
      snd (PutTokenContinuously q first renewals audience token ticks) = None) \<and>
   (fst (PutToken (fst first) (snd first) audience token) = None \<longrightarrow>
      ((\<forall>j < timer_ticks ticks. renew renewals audience token j = None) \<longrightarrow>
         PutTokenContinuously q first renewals audience token ticks
           = (None, Some ([], timer_ticks ticks < length ticks))) \<and>
      (\<forall>j e. j < timer_ticks ticks \<and> (\<forall>i < j. renew renewals audience token i = None) \<and>
             renew renewals audience token j = Some e \<longrightarrow>
         PutTokenContinuously q first renewals audience token ticks
           = (None, Some ([''put token error: '' @ Error q e], True))))"
proof (cases "fst (PutToken (fst first) (snd first) audience token)")
  case None
  have a: "renewal_loop q renewals audience token 0 ticks = ([], timer_ticks ticks < length ticks)"
    if "\<forall>j < timer_ticks ticks. renew renewals audience token j = None"
    using renewal_loop_all_succeed [of ticks renewals audience token 0 q] that by simp
  have b: "renewal_loop q renewals audience token 0 ticks = ([''put token error: '' @ Error q e], True)"
    if "j < timer_ticks ticks" "\<forall>i < j. renew renewals audience token i = None"
      "renew renewals audience token j = Some e" for j e
    using renewal_loop_first_failure [of j ticks renewals audience token 0 e q] that by simp
  have p: "PutTokenContinuously q first renewals audience token ticks
             = (None, Some (renewal_loop q renewals audience token 0 ticks))"
    using None by (simp add: PutTokenContinuously_def)
  have c1: "(\<forall>j < timer_ticks ticks. renew renewals audience token j = None) \<longrightarrow>
         PutTokenContinuously q first renewals audience token ticks
           = (None, Some ([], timer_ticks ticks < length ticks))"
    using a p by simp
  have c2: "\<forall>j e. j < timer_ticks ticks \<and> (\<forall>i < j. renew renewals audience token i = None) \<and>
             renew renewals audience token j = Some e \<longrightarrow>
         PutTokenContinuously q first renewals audience token ticks
           = (None, Some ([''put token error: '' @ Error q e], True))"
  proof (intro allI impI)
    fix j e
    assume "j < timer_ticks ticks \<and> (\<forall>i < j. renew renewals audience token i = None) \<and>
             renew renewals audience token j = Some e"
    then have "renewal_loop q renewals audience token 0 ticks
                 = ([''put token error: '' @ Error q e], True)"
      using b by blast
    with p show "PutTokenContinuously q first renewals audience token ticks
           = (None, Some ([''put token error: '' @ Error q e], True))"
      by (simp only:)
  qed
  from None p c1 c2 show ?thesis
    by (simp only: fst_conv snd_conv) simp
next
  case (Some e)
  then show ?thesis
    by (simp add: PutTokenContinuously_def)
qed

theorem PutTokenContinuously_first_handshake_witness:
  "\<forall>q. PutTokenContinuously q (broker (response 200 ''OK''), ''u0'') renewals_failing
       ''aud'' ''tok'' [After, After, After]
     = (None, Some ([''put token error: code = 401, description = '' @ q (VString ''Unauthorized'')],
                    True)) \<and>
   PutTokenContinuously q (broker (response 200 ''OK''), ''u0'') renewals_failing
       ''aud'' ''tok'' [After, Stop, After]
     = (None, Some ([], True)) \<and>
   PutTokenContinuously q (broker (response 401 ''Unauthorized''), ''u0'') renewals_failing
       ''aud'' ''tok'' [After, After, After]
     = (Some (Errorf_code_description 401 (VString ''Unauthorized'')), None)"
proof
  fix q :: "go_value \<Rightarrow> string"
  have ok: "fst (PutToken (broker (response 200 ''OK'')) u ''aud'' ''tok'') = None" for u
    by (simp add: PutToken_def broker_def response_def CheckMessageResponse_def index_def)
  have bad: "fst (PutToken (broker (response 401 ''Unauthorized'')) u ''aud'' ''tok'')
               = Some (Errorf_code_description 401 (VString ''Unauthorized''))" for u
    by (simp add: PutToken_def broker_def response_def CheckMessageResponse_def index_def)
  have r0: "renew renewals_failing ''aud'' ''tok'' 0 = None"
    using ok by (simp add: renew_def renewals_failing_def)
  have r1: "renew renewals_failing ''aud'' ''tok'' (Suc 0)
              = Some (Errorf_code_description 401 (VString ''Unauthorized''))"
    using bad by (simp add: renew_def renewals_failing_def)
  have t3: "timer_ticks [After, After, After] = 3" and t1: "timer_ticks [After, Stop, After] = 1"
    by (simp_all add: timer_ticks_def)
  have line: "Error q (Errorf_code_description 401 (VString ''Unauthorized''))
                = ''code = 401, description = '' @ q (VString ''Unauthorized'')"
    using fmt_d_401 by simp
  have a: "PutTokenContinuously q (broker (response 200 ''OK''), ''u0'') renewals_failing
       ''aud'' ''tok'' [After, After, After]
     = (None, Some ([''put token error: code = 401, description = '' @ q (VString ''Unauthorized'')],
                    True))"
  proof -
    let ?e = "Errorf_code_description 401 (VString ''Unauthorized'')"
    from PutTokenContinuously_first_handshake [of q "(broker (response 200 ''OK''), ''u0'')"
        renewals_failing "''aud''" "''tok''" "[After, After, After]"] ok
    have "\<forall>j e. j < timer_ticks [After, After, After] \<and>
             (\<forall>i < j. renew renewals_failing ''aud'' ''tok'' i = None) \<and>
             renew renewals_failing ''aud'' ''tok'' j = Some e \<longrightarrow>
         PutTokenContinuously q (broker (response 200 ''OK''), ''u0'') renewals_failing
             ''aud'' ''tok'' [After, After, After]
           = (None, Some ([''put token error: '' @ Error q e], True))"
      by (simp del: Error.simps)
    then have "Suc 0 < timer_ticks [After, After, After] \<and>
             (\<forall>i < Suc 0. renew renewals_failing ''aud'' ''tok'' i = None) \<and>
             renew renewals_failing ''aud'' ''tok'' (Suc 0) = Some ?e \<longrightarrow>
         PutTokenContinuously q (broker (response 200 ''OK''), ''u0'') renewals_failing
             ''aud'' ''tok'' [After, After, After]
           = (None, Some ([''put token error: '' @ Error q ?e], True))"
      by blast
    with r0 r1 t3 line show ?thesis
      by simp
  qed
  have b: "PutTokenContinuously q (broker (response 200 ''OK''), ''u0'') renewals_failing
       ''aud'' ''tok'' [After, Stop, After]
     = (None, Some ([], True))"
    using PutTokenContinuously_first_handshake [of q "(broker (response 200 ''OK''), ''u0'')"
        renewals_failing "''aud''" "''tok''" "[After, Stop, After]"] ok r0 t1
    by simp
  have c: "PutTokenContinuously q (broker (response 401 ''Unauthorized''), ''u0'') renewals_failing
       ''aud'' ''tok'' [After, After, After]
     = (Some (Errorf_code_description 401 (VString ''Unauthorized'')), None)"
    using PutTokenContinuously_first_handshake [of q "(broker (response 401 ''Unauthorized''), ''u0'')"
        renewals_failing "''aud''" "''tok''" "[After, After, After]"] bad
    by (simp add: prod_eq_iff)
  from a b c
  show "PutTokenContinuously q (broker (response 200 ''OK''), ''u0'') renewals_failing
       ''aud'' ''tok'' [After, After, After]
     = (None, Some ([''put token error: code = 401, description = '' @ q (VString ''Unauthorized'')],
                    True)) \<and>
   PutTokenContinuously q (broker (response 200 ''OK''), ''u0'') renewals_failing
       ''aud'' ''tok'' [After, Stop, After]
     = (None, Some ([], True)) \<and>
   PutTokenContinuously q (broker (response 401 ''Unauthorized''), ''u0'') renewals_failing
       ''aud'' ''tok'' [After, After, After]
     = (Some (Errorf_code_description 401 (VString ''Unauthorized'')), None)"
    by simp
qed

subsection \<open>getPartitionIDs and the response\<close>

text \<open>
  With both links open, the request sent and a response received, the result of
  \<open>getPartitionIDs\<close> is decided by the response: a status code other than 200 gives the
  error with the broker's code and description; a 200 response whose properties carry
  another correlation id gives the error "message-id mismatch"; the list of partition ids
  is returned only for a 200 response that echoes the message id of the request and
  carries the list.
\<close>

lemma getPartitionIDs_received:
  assumes "NewReceiver sess [LinkSourceAddress ''$management'', LinkTargetAddress replyTo] = None"
    and "NewSender sess [LinkTargetAddress ''$management'', LinkSourceAddress replyTo] = None"
    and "Send sess (management_request msgID replyTo name) = None"
    and "Receive sess (management_request msgID replyTo name) = Inr msg"
  shows "fst (getPartitionIDs sess replyTo msgID name) = fst (partition_ids_of_response msgID msg)"
  using assms by (simp add: getPartitionIDs_def Let_def)

lemma partition_ids_of_response_status:
  assumes "index (ApplicationProperties msg) ''status-code'' = VInt32 rc" and "rc \<noteq> 200"
  shows "fst (partition_ids_of_response msgID msg)
           = Failed (Errorf_code_description rc (index (ApplicationProperties msg) ''status-description''))"
  using assms by (simp add: partition_ids_of_response_def CheckMessageResponse_def)

lemma partition_ids_of_response_mismatch:
  assumes "index (ApplicationProperties msg) ''status-code'' = VInt32 200"
    and "Properties msg = Some props" and "CorrelationID props \<noteq> VString msgID"
  shows "fst (partition_ids_of_response msgID msg) = Failed (ErrorsNew ''message-id mismatch'')"
  using assms by (simp add: partition_ids_of_response_def CheckMessageResponse_def)

lemma partition_ids_of_response_Returned:
  assumes "fst (partition_ids_of_response msgID msg) = Returned ids"
  shows "index (ApplicationProperties msg) ''status-code'' = VInt32 200 \<and>
         (\<exists>props. Properties msg = Some props \<and> CorrelationID props = VString msgID) \<and>
         (\<exists>val. Value msg = VMap val \<and> index val ''partition_ids'' = VStrings ids)"
  using assms
  by (auto simp: partition_ids_of_response_def CheckMessageResponse_def
      split: option.splits go_value.splits if_splits)

lemma partition_ids_of_response_no_properties:
  assumes "index (ApplicationProperties msg) ''status-code'' = VInt32 200" and "Properties msg = None"
  shows "fst (partition_ids_of_response msgID msg) = Panic"
  using assms by (simp add: partition_ids_of_response_def CheckMessageResponse_def)

text \<open>
  Claim C8, at the input where the code departs from it. The broker answers the request
  with status code 200 in a message that has no properties section, so it does not echo
  the correlation id. \<open>msg.Properties\<close> is nil and \<open>msg.Properties.CorrelationID\<close>
  dereferences it: the call panics (after which the deferred closes run) and returns no
  error.
\<close>

theorem getPartitionIDs_response_without_properties:
  "getPartitionIDs (broker (response 200 ''OK'')) ''reply-1'' ''msg-1'' ''telemetry'' =
     (Panic,
      [ReceiverOpened [LinkSourceAddress ''$management'', LinkTargetAddress ''reply-1''],
       SenderOpened [LinkTargetAddress ''$management'', LinkSourceAddress ''reply-1''],
       Sent (management_request ''msg-1'' ''reply-1'' ''telemetry''),
       Received (response 200 ''OK''),
       SenderClosed, ReceiverClosed])"
  by (simp add: getPartitionIDs_def partition_ids_of_response_def CheckMessageResponse_def
      broker_def response_def index_def Let_def)

subsection \<open>The filter of the partition receivers\<close>

text \<open>Reading back a decimal numeral gives the number that \<open>%d\<close> printed.\<close>

lemma digit_value_digit: "d < 10 \<Longrightarrow> digit_value (digit d) = Some d"
proof -
  assume "d < 10"
  then consider "d = 0" | "d = 1" | "d = 2" | "d = 3" | "d = 4" | "d = 5" | "d = 6" | "d = 7"
    | "d = 8" | "d = 9"
    by atomize_elim presburger
  then show ?thesis
    by cases (simp_all add: digit_def digit_value_def)
qed

lemma digit_value_minus: "digit_value CHR ''-'' = None"
  by (simp add: digit_value_def)

lemma fmt_nat_not_Nil: "fmt_nat n \<noteq> []"
  by (subst fmt_nat.simps) simp

lemma parse_nat_append:
  "parse_nat acc (xs @ ys) = (case parse_nat acc xs of None \<Rightarrow> None | Some a \<Rightarrow> parse_nat a ys)"
  by (induction xs arbitrary: acc) (auto split: option.splits)

lemma parse_nat_fmt_nat: "parse_nat acc (fmt_nat n) = Some (acc * 10 ^ length (fmt_nat n) + n)"
proof (induction n arbitrary: acc rule: fmt_nat.induct)
  case (1 n)
  show ?case
  proof (cases "n < 10")
    case True
    then show ?thesis
      by (subst (1 2) fmt_nat.simps) (simp add: digit_value_digit)
  next
    case False
    have d: "digit_value (digit (n mod 10)) = Some (n mod 10)"
      by (simp add: digit_value_digit)
    have "parse_nat acc (fmt_nat n) = parse_nat acc (fmt_nat (n div 10) @ [digit (n mod 10)])"
      using False by (subst fmt_nat.simps) simp
    also have "\<dots> = Some (10 * (acc * 10 ^ length (fmt_nat (n div 10)) + n div 10) + n mod 10)"
      using False by (simp add: parse_nat_append "1.IH" d)
    also have "length (fmt_nat n) = Suc (length (fmt_nat (n div 10)))"
      using False by (subst fmt_nat.simps) simp
    then have "10 * (acc * 10 ^ length (fmt_nat (n div 10)) + n div 10) + n mod 10
                 = acc * 10 ^ length (fmt_nat n) + n"
      by (simp add: algebra_simps)
    finally show ?thesis .
  qed
qed

lemma hd_fmt_nat_digit: "digit_value (hd (fmt_nat n)) \<noteq> None"
proof -
  have "parse_nat 0 (fmt_nat n) \<noteq> None"
    by (simp add: parse_nat_fmt_nat)
  then show ?thesis
    using fmt_nat_not_Nil [of n] by (cases "fmt_nat n") (auto split: option.splits)
qed

lemma parse_d_fmt_d: "parse_d (fmt_d i) = Some i"
proof (cases "i < 0")
  case True
  then show ?thesis
    by (simp add: parse_d_def fmt_d_def fmt_nat_not_Nil parse_nat_fmt_nat)
next
  case False
  obtain c cs where s: "fmt_nat (nat i) = c # cs"
    using fmt_nat_not_Nil [of "nat i"] by (cases "fmt_nat (nat i)") auto
  with hd_fmt_nat_digit [of "nat i"] have "c \<noteq> CHR ''-''"
    using digit_value_minus by auto
  moreover have "parse_nat 0 (c # cs) = Some (nat i)"
    using parse_nat_fmt_nat [of 0 "nat i"] s by simp
  ultimately show ?thesis
    using False s by (simp add: parse_d_def fmt_d_def)
qed

text \<open>The filter built for \<open>ms\<close> means: enqueue time greater than \<open>ms\<close>.\<close>

lemma selector_threshold_enqueued_filter: "selector_threshold (enqueued_filter ms) = Some ms"
proof -
  define p where "p = ''amqp.annotation.x-opt-enqueuedtimeutc > '' @ [CHR 0x27]"
  have e: "enqueued_filter ms = p @ (fmt_d ms @ [CHR 0x27])"
    by (simp add: enqueued_filter_def p_def)
  have "selector_threshold (p @ (fmt_d ms @ [CHR 0x27])) = parse_d (fmt_d ms)"
    unfolding selector_threshold_def p_def [symmetric] Let_def by simp
  with e show ?thesis
    by (simp add: parse_d_fmt_d)
qed

text \<open>Truncating a clock reading to milliseconds loses less than a millisecond.\<close>

lemma millis_bound: "r < (millis r + 1) * 1000000"
proof (cases "0 \<le> r")
  case True
  then have "millis r = r div 1000000"
    by (simp add: millis_def signed_divide_int_def sgn_if)
  then show ?thesis
    by (simp add: algebra_simps)
next
  case False
  then have "millis r = - ((- r) div 1000000)"
    by (simp add: millis_def signed_divide_int_def sgn_if)
  moreover have "0 \<le> (- r) div 1000000 * 1000000" "(- r) div 1000000 * 1000000 \<le> - r"
    using False by (simp_all add: pos_imp_zdiv_nonneg_iff)
  ultimately show ?thesis
    by (simp add: algebra_simps)
qed

lemma open_receivers_options:
  "open_receivers sess now name cgroup k ids = Inr rs \<Longrightarrow>
     rs = map (\<lambda>j. [LinkSourceAddress (partition_address name cgroup (ids ! j)),
                    LinkSelectorFilter (enqueued_filter (millis (now (k + j))))]) [0..<length ids]"
proof (induction ids arbitrary: k rs)
  case Nil
  then show ?case by simp
next
  case (Cons pid ids)
  from Cons.prems obtain rs' where
    t: "open_receivers sess now name cgroup (Suc k) ids = Inr rs'" and
    r: "rs = [LinkSourceAddress (partition_address name cgroup pid),
              LinkSelectorFilter (enqueued_filter (millis (now k)))] # rs'"
    by (auto simp: Let_def split: option.splits sum.splits)
  have "[0..<length (pid # ids)] = 0 # map Suc [0..<length ids]"
    by (simp add: upt_conv_Cons map_Suc_upt del: upt_Suc)
  with Cons.IH [OF t] r show ?case
    by (simp add: comp_def del: upt_Suc)
qed

text \<open>
  Claim C5. Let \<open>T\<close> be the time at which the call started, in nanoseconds, so that no
  reading of the clock made while the receivers are opened is before \<open>T\<close>. When the
  receivers for the partitions \<open>ids\<close> all open, there is one for each partition, and a
  message that the filter of any of them admits has an enqueue time (in milliseconds)
  that lies after \<open>T\<close>: no receiver delivers a message enqueued before the call started.
\<close>

theorem receivers_filter_enqueue_time:
  assumes "open_receivers sess now name cgroup 0 ids = Inr rs"
    and "\<forall>j < length ids. T \<le> now j"
  shows "length rs = length ids \<and>
         (\<forall>opts \<in> set rs. \<forall>enqueued_ms. admits opts enqueued_ms \<longrightarrow> T < enqueued_ms * 1000000)"
proof -
  from open_receivers_options [OF assms(1)] have
    rs: "rs = map (\<lambda>j. [LinkSourceAddress (partition_address name cgroup (ids ! j)),
                    LinkSelectorFilter (enqueued_filter (millis (now j)))]) [0..<length ids]"
    by simp
  have "T < ms * 1000000" if "opts \<in> set rs" and "admits opts ms" for opts ms
  proof -
    from that(1) rs obtain j where j: "j < length ids" and
      o: "opts = [LinkSourceAddress (partition_address name cgroup (ids ! j)),
                  LinkSelectorFilter (enqueued_filter (millis (now j)))]"
      by auto
    from that(2) o have "millis (now j) < ms"
      by (simp add: admits_def selector_threshold_enqueued_filter)
    then have "(millis (now j) + 1) * 1000000 \<le> ms * 1000000"
      by simp
    with millis_bound [of "now j"] assms(2) j show ?thesis
      by force
  qed
  with rs show ?thesis by simp
qed

lemma millis_clock: "millis (clock 0) = 1700000000123" "millis (clock (Suc 0)) = 1700000000123"
  by (simp_all add: millis_def clock_def signed_divide_int_def)

theorem receivers_filter_enqueue_time_witness:
  "open_receivers (broker (management_response ''msg-1'' [''0'', ''1''])) clock ''telemetry''
      ''$Default'' 0 [''0'', ''1''] =
     Inr [[LinkSourceAddress ''/telemetry/ConsumerGroups/$Default/Partitions/0'',
           LinkSelectorFilter (enqueued_filter 1700000000123)],
          [LinkSourceAddress ''/telemetry/ConsumerGroups/$Default/Partitions/1'',
           LinkSelectorFilter (enqueued_filter 1700000000123)]] \<and>
   admits [LinkSourceAddress ''/telemetry/ConsumerGroups/$Default/Partitions/0'',
           LinkSelectorFilter (enqueued_filter 1700000000123)] 1700000000124 \<and>
   \<not> admits [LinkSourceAddress ''/telemetry/ConsumerGroups/$Default/Partitions/0'',
           LinkSelectorFilter (enqueued_filter 1700000000123)] 1700000000123 \<and>
   (1700000000000000000 :: int) < 1700000000124 * 1000000"
proof -
  let ?r0 = "[LinkSourceAddress ''/telemetry/ConsumerGroups/$Default/Partitions/0'',
           LinkSelectorFilter (enqueued_filter 1700000000123)]"
  let ?r1 = "[LinkSourceAddress ''/telemetry/ConsumerGroups/$Default/Partitions/1'',
           LinkSelectorFilter (enqueued_filter 1700000000123)]"
  have o: "open_receivers (broker (management_response ''msg-1'' [''0'', ''1''])) clock ''telemetry''
      ''$Default'' 0 [''0'', ''1''] = Inr [?r0, ?r1]"
    by (simp add: broker_def Let_def partition_address_def millis_clock)
  have t: "\<forall>j < length [''0'', ''1'']. (1700000000000000000 :: int) \<le> clock j"
    by (simp add: clock_def)
  have a: "admits ?r0 1700000000124" and n: "\<not> admits ?r0 1700000000123"
    by (simp_all add: admits_def selector_threshold_enqueued_filter)
  from receivers_filter_enqueue_time [OF o t] a have "(1700000000000000000 :: int) < 1700000000124 * 1000000"
    by auto
  with o a n show ?thesis
    by blast
qed


subsection \<open>The fan-in of SubscribePartitions\<close>

text \<open>
  Once the call has returned, no step changes its result or the list of messages delivered
  to the callback, and the context stays done.
\<close>

lemma step_after_return:
  assumes "returned s = Some e" and "step s a = Some s'"
  shows "returned s' = Some e \<and> dispatched s' = dispatched s \<and> (cancelled s \<longrightarrow> cancelled s')"
  using assms
  by (cases a) (auto split: if_splits sum.splits receiver.splits)

lemma run_after_return:
  assumes "returned s = Some e" and "run s as = Some s'"
  shows "returned s' = Some e \<and> dispatched s' = dispatched s \<and> (cancelled s \<longrightarrow> cancelled s')"
  using assms
proof (induction as arbitrary: s)
  case Nil
  then show ?case by simp
next
  case (Cons a as)
  from Cons.prems(2) obtain t where t: "step s a = Some t" and r: "run t as = Some s'"
    by (auto split: option.splits)
  from step_after_return [OF Cons.prems(1) t] Cons.IH [OF _ r] show ?case
    by simp
qed

text \<open>
  While the call has not returned, an error in \<open>errc\<close> stays at the head of the channel
  until the select takes it, and the select returns with it: the first error sent is the
  error returned.
\<close>

lemma step_head_errc:
  assumes "step s a = Some s'" and "errc s \<noteq> []" and "returned s = None"
  shows "(a = SelectErr \<and> returned s' = Some (hd (errc s))) \<or>
         (returned s' = None \<and> errc s' \<noteq> [] \<and> hd (errc s') = hd (errc s))"
  using assms
  by (cases a) (auto split: if_splits sum.splits receiver.splits list.splits)

lemma run_head_errc:
  assumes "run s as = Some s'" and "errc s \<noteq> []" and "returned s = None" and "returned s' = Some e"
  shows "e = hd (errc s)"
  using assms
proof (induction as arbitrary: s)
  case Nil
  then show ?case by simp
next
  case (Cons a as)
  from Cons.prems(1) obtain t where t: "step s a = Some t" and r: "run t as = Some s'"
    by (auto split: option.splits)
  from step_head_errc [OF t Cons.prems(2,3)] show ?case
  proof
    assume "a = SelectErr \<and> returned t = Some (hd (errc s))"
    with run_after_return [OF _ r] Cons.prems(4) show ?thesis
      by auto
  next
    assume "returned t = None \<and> errc t \<noteq> [] \<and> hd (errc t) = hd (errc s)"
    with Cons.IH [OF r _ _ Cons.prems(4)] show ?thesis
      by simp
  qed
qed

lemma run_first_sent:
  assumes "run s as = Some s'" and "errc s = []" and "returned s = None" and "returned s' = Some e"
  shows "first_sent s as = Some e"
  using assms
proof (induction as arbitrary: s)
  case Nil
  then show ?case by simp
next
  case (Cons a as)
  from Cons.prems(1) obtain t where t: "step s a = Some t" and r: "run t as = Some s'"
    by (auto split: option.splits)
  show ?case
  proof (cases a)
    case (Recv i x)
    with t Cons.prems(2,3) have "errc t = []" "returned t = None"
      by (auto split: if_splits sum.splits)
    from Cons.IH [OF r this Cons.prems(4)] t Recv show ?thesis
      by simp
  next
    case (SendMsg i)
    with t Cons.prems(2,3) have "errc t = []" "returned t = None"
      by (auto split: if_splits receiver.splits)
    from Cons.IH [OF r this Cons.prems(4)] t SendMsg show ?thesis
      by simp
  next
    case (SendErr i)
    with t Cons.prems(2,3) obtain e0 where
      e0: "recvs s ! i = AtSendErr e0" "errc t = [e0]" "returned t = None"
      by (auto split: if_splits receiver.splits)
    with run_head_errc [OF r _ _ Cons.prems(4)] have "e = e0"
      by simp
    with t SendErr e0 show ?thesis
      by simp
  next
    case SelectMsg
    with t Cons.prems(2,3) have "errc t = []" "returned t = None"
      by (auto split: option.splits list.splits)
    from Cons.IH [OF r this Cons.prems(4)] t SelectMsg show ?thesis
      by simp
  next
    case SelectErr
    with t Cons.prems(2,3) show ?thesis
      by (simp split: option.splits)
  next
    case (Invoke k)
    with t Cons.prems(2,3) have "errc t = []" "returned t = None"
      by (auto split: if_splits)
    from Cons.IH [OF r this Cons.prems(4)] t Invoke show ?thesis
      by simp
  next
    case CtxDone
    with t Cons.prems(2,3) have "errc t = []" "returned t = None"
      by auto
    from Cons.IH [OF r this Cons.prems(4)] t CtxDone show ?thesis
      by simp
  qed
qed

text \<open>Every error in a state was yielded by a call of \<open>r.Receive\<close>.\<close>

lemma step_errors_held:
  assumes "step s a = Some s'"
  shows "errors_held s' \<subseteq> errors_held s \<union> yielded [a]"
proof (cases a)
  case (Recv i x)
  with assms show ?thesis
    by (auto simp: errors_held_def yielded_def split: if_splits sum.splits
        dest!: set_update_subset_insert [THEN subsetD])
next
  case (SendMsg i)
  with assms show ?thesis
    by (auto simp: errors_held_def split: if_splits receiver.splits
        dest!: set_update_subset_insert [THEN subsetD])
next
  case (SendErr i)
  with assms obtain e where e: "recvs s ! i = AtSendErr e" "i < length (recvs s)"
    and s': "s' = s\<lparr>recvs := (recvs s)[i := Exited], errc := errc s @ [e]\<rparr>"
    by (auto split: if_splits receiver.splits)
  from e have "AtSendErr e \<in> set (recvs s)"
    by (metis nth_mem)
  with s' show ?thesis
    by (auto simp: errors_held_def dest!: set_update_subset_insert [THEN subsetD])
next
  case SelectMsg
  with assms show ?thesis
    by (auto simp: errors_held_def split: option.splits list.splits)
next
  case SelectErr
  with assms show ?thesis
    by (auto simp: errors_held_def split: option.splits list.splits)
next
  case (Invoke k)
  with assms show ?thesis
    by (auto simp: errors_held_def split: if_splits)
next
  case CtxDone
  with assms show ?thesis
    by (auto simp: errors_held_def)
qed

lemma yielded_Cons: "yielded (a # as) = yielded [a] \<union> yielded as"
  by (auto simp: yielded_def)

lemma run_errors_held:
  assumes "run s as = Some s'"
  shows "errors_held s' \<subseteq> errors_held s \<union> yielded as"
  using assms
proof (induction as arbitrary: s)
  case Nil
  then show ?case by simp
next
  case (Cons a as)
  from Cons.prems obtain t where t: "step s a = Some t" and r: "run t as = Some s'"
    by (auto split: option.splits)
  from step_errors_held [OF t] Cons.IH [OF r] show ?case
    by (subst yielded_Cons) blast
qed

text \<open>The call returns only after cancelling the shared context.\<close>

lemma step_cancelled:
  assumes "step s a = Some s'" and "returned s \<noteq> None \<longrightarrow> cancelled s"
  shows "returned s' \<noteq> None \<longrightarrow> cancelled s'"
  using assms
  by (cases a) (auto split: if_splits sum.splits receiver.splits option.splits list.splits)

lemma run_cancelled:
  assumes "run s as = Some s'" and "returned s \<noteq> None \<longrightarrow> cancelled s"
  shows "returned s' \<noteq> None \<longrightarrow> cancelled s'"
  using assms
proof (induction as arbitrary: s)
  case Nil
  then show ?case by simp
next
  case (Cons a as)
  from Cons.prems(1) obtain t where t: "step s a = Some t" and r: "run t as = Some s'"
    by (auto split: option.splits)
  from Cons.IH [OF r step_cancelled [OF t Cons.prems(2)]] show ?case .
qed

text \<open>
  The error channel never fills up: it holds at most one error for each receiver goroutine
  that has returned, so a goroutine with an error to send can always send it.
\<close>

lemma filter_update_length:
  "i < length xs \<Longrightarrow>
     length (filter P (xs[i := x])) + (if P (xs ! i) then 1 else 0)
       = length (filter P xs) + (if P x then 1 else 0)"
proof (induction xs arbitrary: i)
  case Nil
  then show ?case by simp
next
  case (Cons y ys)
  then show ?case
    by (cases i) auto
qed

lemma step_exited:
  assumes "step s a = Some s'" and "length (errc s) \<le> exited s"
  shows "length (errc s') \<le> exited s' \<and> length (recvs s') = length (recvs s)"
proof (cases a)
  case (Recv i x)
  with assms(1) have i: "i < length (recvs s)" "recvs s ! i = AtReceive"
    by (auto split: if_splits)
  from filter_update_length [OF i(1), of "\<lambda>r. r = Exited"] i(2)
  have "\<And>y. y \<noteq> Exited \<Longrightarrow> length (filter (\<lambda>r. r = Exited) ((recvs s)[i := y])) = exited s"
    by (simp add: exited_def)
  with Recv assms i show ?thesis
    by (auto simp: exited_def split: sum.splits if_splits)
next
  case (SendMsg i)
  with assms(1) obtain m where i: "i < length (recvs s)" "recvs s ! i = AtSendMsg m"
    and s': "s' = s\<lparr>recvs := (recvs s)[i := AtReceive], msgc := msgc s @ [m]\<rparr>"
    by (auto split: if_splits receiver.splits)
  from filter_update_length [OF i(1), of "\<lambda>r. r = Exited" AtReceive] i(2)
  have "length (filter (\<lambda>r. r = Exited) ((recvs s)[i := AtReceive])) = exited s"
    by (simp add: exited_def)
  with s' assms(2) show ?thesis
    by (simp add: exited_def)
next
  case (SendErr i)
  with assms(1) obtain e where i: "i < length (recvs s)" "recvs s ! i = AtSendErr e"
    and s': "s' = s\<lparr>recvs := (recvs s)[i := Exited], errc := errc s @ [e]\<rparr>"
    by (auto split: if_splits receiver.splits)
  from filter_update_length [OF i(1), of "\<lambda>r. r = Exited" Exited] i(2)
  have "length (filter (\<lambda>r. r = Exited) ((recvs s)[i := Exited])) = Suc (exited s)"
    by (simp add: exited_def)
  with s' assms(2) show ?thesis
    by (simp add: exited_def)
next
  case SelectMsg
  with assms show ?thesis
    by (auto simp: exited_def split: option.splits list.splits)
next
  case SelectErr
  with assms show ?thesis
    by (auto simp: exited_def split: option.splits list.splits)
next
  case (Invoke k)
  with assms show ?thesis
    by (auto simp: exited_def split: if_splits)
next
  case CtxDone
  with assms show ?thesis
    by (auto simp: exited_def)
qed

lemma run_exited:
  assumes "run s as = Some s'" and "length (errc s) \<le> exited s"
  shows "length (errc s') \<le> exited s' \<and> length (recvs s') = length (recvs s)"
  using assms
proof (induction as arbitrary: s)
  case Nil
  then show ?case by simp
next
  case (Cons a as)
  from Cons.prems(1) obtain t where t: "step s a = Some t" and r: "run t as = Some s'"
    by (auto split: option.splits)
  from step_exited [OF t Cons.prems(2)] Cons.IH [OF r] show ?case
    by simp
qed

lemma exited_less:
  assumes "i < length (recvs s)" and "recvs s ! i \<noteq> Exited"
  shows "exited s < length (recvs s)"
proof -
  from assms have "recvs s ! i \<in> set (recvs s)"
    by simp
  with assms(2) show ?thesis
    by (simp add: exited_def length_filter_less)
qed

lemma error_can_be_returned:
  assumes "length (errc s) \<le> exited s" and "i < length (recvs s)" and "recvs s ! i = AtSendErr e"
    and "returned s = None"
  shows "\<exists>s'. run s [SendErr i, SelectErr] = Some s' \<and> returned s' = Some (hd (errc s @ [e])) \<and>
              cancelled s'"
proof -
  from exited_less [OF assms(2)] assms(1,3) have "length (errc s) < length (recvs s)"
    by simp
  with assms(2,3,4) show ?thesis
    by (cases "errc s") simp_all
qed

text \<open>
  An error of the context is returned by \<open>r.Receive\<close> only once the context is done.
\<close>

lemma context_error_needs_cancellation:
  assumes "context_error e" and "\<not> cancelled s"
  shows "step s (Recv i (Inl e)) = None"
  using assms by simp

text \<open>
  Once the context is done, a receive loop that is at \<open>r.Receive\<close> can get the error of the
  context, and it then sends the error and ends.
\<close>

lemma receive_loop_can_exit:
  assumes "length (errc s) \<le> exited s" and "i < length (recvs s)" and "recvs s ! i = AtReceive"
    and "cancelled s"
  shows "\<exists>t. run s [Recv i (Inl Canceled), SendErr i] = Some t \<and> recvs t ! i = Exited"
proof -
  from exited_less [OF assms(2)] assms(1,3) have "length (errc s) < length (recvs s)"
    by simp
  with assms(2,3,4) show ?thesis
    by simp
qed

text \<open>
  A receive loop that waits at \<open>msgc <- msg\<close> with the buffer full when the call returns
  waits there for ever: nothing reads \<open>msgc\<close> any more, and the send does not look at the
  context.
\<close>

lemma step_blocked_sender:
  assumes "step s a = Some s'" and "returned s \<noteq> None"
    and "length (msgc s) = length (recvs s)" and "i < length (recvs s)" and "recvs s ! i = AtSendMsg m"
  shows "returned s' \<noteq> None \<and> length (msgc s') = length (recvs s') \<and> i < length (recvs s') \<and>
         recvs s' ! i = AtSendMsg m"
proof (cases a)
  case (Recv j x)
  with assms(1) have j: "j < length (recvs s)" "recvs s ! j = AtReceive"
    by (auto split: if_splits)
  with assms(5) have "j \<noteq> i"
    by auto
  with Recv assms j show ?thesis
    by (auto split: if_splits sum.splits)
next
  case (SendMsg j)
  with assms show ?thesis
    by (auto split: if_splits)
next
  case (SendErr j)
  with assms(1) obtain e where j: "j < length (recvs s)" "recvs s ! j = AtSendErr e"
    and s': "s' = s\<lparr>recvs := (recvs s)[j := Exited], errc := errc s @ [e]\<rparr>"
    by (auto split: if_splits receiver.splits)
  with assms(5) have "j \<noteq> i"
    by auto
  with s' assms show ?thesis
    by simp
next
  case SelectMsg
  with assms show ?thesis
    by (auto split: option.splits)
next
  case SelectErr
  with assms show ?thesis
    by (auto split: option.splits)
next
  case (Invoke k)
  with assms show ?thesis
    by (auto split: if_splits)
next
  case CtxDone
  with assms show ?thesis
    by auto
qed

lemma blocked_sender_stays:
  assumes "run s as = Some s'" and "returned s \<noteq> None"
    and "length (msgc s) = length (recvs s)" and "i < length (recvs s)" and "recvs s ! i = AtSendMsg m"
  shows "recvs s' ! i = AtSendMsg m"
  using assms
proof (induction as arbitrary: s)
  case Nil
  then show ?case by simp
next
  case (Cons a as)
  from Cons.prems(1) obtain t where t: "step s a = Some t" and r: "run t as = Some s'"
    by (auto split: option.splits)
  from step_blocked_sender [OF t Cons.prems(2-5)] Cons.IH [OF r] show ?case
    by simp
qed

text \<open>The callback only ever starts on messages that were dispatched.\<close>

lemma step_callbacks:
  assumes "step s a = Some s'" and "set (pending s) \<union> set (invoked s) \<subseteq> set (dispatched s)"
  shows "set (pending s') \<union> set (invoked s') \<subseteq> set (dispatched s')"
proof (cases a)
  case (Invoke k)
  with assms(1) have k: "k < length (pending s)"
    and s': "s' = s\<lparr>pending := take k (pending s) @ drop (Suc k) (pending s),
                     invoked := invoked s @ [pending s ! k]\<rparr>"
    by (auto split: if_splits)
  have "set (take k (pending s)) \<subseteq> set (pending s)" "set (drop (Suc k) (pending s)) \<subseteq> set (pending s)"
    by (rule set_take_subset, rule set_drop_subset)
  moreover from k have "pending s ! k \<in> set (pending s)"
    by simp
  ultimately show ?thesis
    using assms(2) s' by auto
next
  case (Recv i x)
  with assms show ?thesis
    by (auto split: if_splits sum.splits)
next
  case (SendMsg i)
  with assms show ?thesis
    by (auto split: if_splits receiver.splits)
next
  case (SendErr i)
  with assms show ?thesis
    by (auto split: if_splits receiver.splits)
next
  case SelectMsg
  with assms show ?thesis
    by (auto split: option.splits list.splits)
next
  case SelectErr
  with assms show ?thesis
    by (auto split: option.splits list.splits)
next
  case CtxDone
  with assms show ?thesis
    by auto
qed

lemma run_callbacks:
  assumes "run s as = Some s'" and "set (pending s) \<union> set (invoked s) \<subseteq> set (dispatched s)"
  shows "set (pending s') \<union> set (invoked s') \<subseteq> set (dispatched s')"
  using assms
proof (induction as arbitrary: s)
  case Nil
  then show ?case by simp
next
  case (Cons a as)
  from Cons.prems(1) obtain t where t: "step s a = Some t" and r: "run t as = Some s'"
    by (auto split: option.splits)
  from Cons.IH [OF r step_callbacks [OF t Cons.prems(2)]] show ?case .
qed

lemma run_append:
  "run s (as @ bs) = (case run s as of None \<Rightarrow> None | Some t \<Rightarrow> run t bs)"
  by (induction as arbitrary: s) (auto split: option.splits)

lemma fanin_init_facts:
  "errc (fanin_init n) = []" "returned (fanin_init n) = None" "length (recvs (fanin_init n)) = n"
  "errors_held (fanin_init n) = {}" "length (errc (fanin_init n)) \<le> exited (fanin_init n)"
  "set (pending (fanin_init n)) \<union> set (invoked (fanin_init n)) \<subseteq> set (dispatched (fanin_init n))"
  by (auto simp: fanin_init_def errors_held_def)

lemma discovery_scenario:
  "fst (getPartitionIDs (broker (management_response ''msg-1'' [''0'', ''1''])) ''reply-1'' ''msg-1''
         ''telemetry'') = Returned [''0'', ''1'']"
  by (simp add: getPartitionIDs_def partition_ids_of_response_def CheckMessageResponse_def
      broker_def management_response_def index_def Let_def)

lemma receivers_scenario:
  "\<exists>rs. open_receivers (broker (management_response ''msg-1'' [''0'', ''1''])) clock ''telemetry''
          ''$Default'' 0 [''0'', ''1''] = Inr rs"
  by (simp add: broker_def Let_def)

lemma run_scenario:
  "run (fanin_init (length [''0'', ''1''])) scenario =
     Some \<lparr> recvs = [Exited, AtReceive], msgc = [event ''M2''], errc = [],
            accepted = [event ''M1'', event ''M2''], dispatched = [event ''M1''],
            pending = [event ''M1''], invoked = [],
            cancelled = True, returned = Some detached \<rparr>"
  by (simp add: fanin_init_def scenario_def detached_def numeral_2_eq_2)

text \<open>
  The claim C2 as the specification states it fails in two ways. In the scenario of the
  specification the call has returned with the error of partition "0" while the callback,
  dispatched with \<open>go f(msg)\<close>, has not started on M1: it starts on it after the return. In
  the second run the call has returned and the shared context is cancelled, but the
  receive loop of partition "0" waits at \<open>msgc <- msg\<close> with the buffer full: its send
  cannot proceed, and by \<open>blocked_sender_stays\<close> the loop never ends.
\<close>

theorem SubscribePartitions_after_return_counterexample:
  "run (fanin_init 2) scenario =
     Some \<lparr> recvs = [Exited, AtReceive], msgc = [event ''M2''], errc = [],
            accepted = [event ''M1'', event ''M2''], dispatched = [event ''M1''],
            pending = [event ''M1''], invoked = [],
            cancelled = True, returned = Some detached \<rparr> \<and>
   run (fanin_init 2) (scenario @ [Invoke 0]) =
     Some \<lparr> recvs = [Exited, AtReceive], msgc = [event ''M2''], errc = [],
            accepted = [event ''M1'', event ''M2''], dispatched = [event ''M1''],
            pending = [], invoked = [event ''M1''],
            cancelled = True, returned = Some detached \<rparr> \<and>
   run (fanin_init 2) scenario_full_buffer =
     Some \<lparr> recvs = [AtSendMsg (event ''M3''), Exited], msgc = [event ''M1'', event ''M2''],
            errc = [], accepted = [event ''M1'', event ''M2'', event ''M3''], dispatched = [],
            pending = [], invoked = [],
            cancelled = True, returned = Some detached \<rparr> \<and>
   step \<lparr> recvs = [AtSendMsg (event ''M3''), Exited], msgc = [event ''M1'', event ''M2''],
          errc = [], accepted = [event ''M1'', event ''M2'', event ''M3''], dispatched = [],
          pending = [], invoked = [],
          cancelled = True, returned = Some detached \<rparr> (SendMsg 0) = None"
  by (simp add: fanin_init_def scenario_def scenario_full_buffer_def detached_def numeral_2_eq_2)

text \<open>
  Claim C2, amended. Take a call of \<open>SubscribePartitions\<close> whose discovery gives the
  partitions \<open>ids\<close> and whose receivers all open, and any state \<open>s\<close> that its goroutines
  reach under any scheduling. First: when a receiver goroutine holds an error that its
  \<open>r.Receive\<close> yielded and the call has not returned, the goroutine can send it (the
  channel has room) and the select can then return with the first error in the channel,
  with the shared context cancelled. Second: \<open>r.Receive\<close> returns an error of the context
  only once the shared context is done. Third: when the call has returned with \<open>e\<close>, its
  result is \<open>e\<close>; \<open>e\<close> is the first error that any receiver sent, and a call of
  \<open>r.Receive\<close> yielded it; the shared context, which every receive loop passes to
  \<open>r.Receive\<close>, is cancelled; and whatever the goroutines do afterwards, the result stays
  \<open>e\<close>, the context stays cancelled, no further \<open>go f(msg)\<close> is executed (messages left in
  the buffer of \<open>msgc\<close> are never handed to the callback), the callback starts only on
  messages that were dispatched before the return, and every receive loop that is at
  \<open>r.Receive\<close> can get the error of the cancelled context there and then ends. Nothing is
  said of a receive loop that waits at \<open>msgc <- msg\<close>.
\<close>

theorem SubscribePartitions_first_error_wins:
  assumes "fst (getPartitionIDs sess replyTo msgID name) = Returned ids"
    and "open_receivers sess now name cgroup 0 ids = Inr rs"
    and "run (fanin_init (length ids)) schedule = Some s"
  shows
    "(\<forall>i e. i < length ids \<and> recvs s ! i = AtSendErr e \<and> returned s = None \<longrightarrow>
        (\<exists>s'. run s [SendErr i, SelectErr] = Some s' \<and> returned s' = Some (hd (errc s @ [e])) \<and>
              cancelled s')) \<and>
     (\<forall>i e. context_error e \<and> \<not> cancelled s \<longrightarrow> step s (Recv i (Inl e)) = None) \<and>
     (\<forall>e. returned s = Some e \<longrightarrow>
        SubscribePartitions sess replyTo msgID now name cgroup schedule = Some (Failed e, dispatched s) \<and>
        first_sent (fanin_init (length ids)) schedule = Some e \<and>
        (\<exists>i. Recv i (Inl e) \<in> set schedule) \<and>
        cancelled s \<and>
        (\<forall>more s'. run s more = Some s' \<longrightarrow>
           returned s' = Some e \<and> dispatched s' = dispatched s \<and> cancelled s' \<and>
           set (invoked s') \<subseteq> set (dispatched s) \<and>
           SubscribePartitions sess replyTo msgID now name cgroup (schedule @ more)
             = Some (Failed e, dispatched s) \<and>
           (\<forall>i. i < length ids \<and> recvs s' ! i = AtReceive \<longrightarrow>
              (\<exists>t. run s' [Recv i (Inl Canceled), SendErr i] = Some t \<and> recvs t ! i = Exited))))"
proof -
  let ?init = "fanin_init (length ids)"
  from run_exited [OF assms(3)] have
    inv: "length (errc s) \<le> exited s" and len: "length (recvs s) = length ids"
    by (simp_all add: fanin_init_facts)
  have cb: "set (pending s) \<union> set (invoked s) \<subseteq> set (dispatched s)"
    using run_callbacks [OF assms(3)] by (simp add: fanin_init_def)
  have progress: "\<exists>s'. run s [SendErr i, SelectErr] = Some s' \<and>
      returned s' = Some (hd (errc s @ [e])) \<and> cancelled s'"
    if "i < length ids" "recvs s ! i = AtSendErr e" "returned s = None" for i e
    using error_can_be_returned [OF inv _ that(2,3)] that(1) len by simp
  have ctx: "step s (Recv i (Inl e)) = None" if "context_error e" "\<not> cancelled s" for i e
    using that by (rule context_error_needs_cancellation)
  have result: "SubscribePartitions sess replyTo msgID now name cgroup schedule = Some (Failed e, dispatched s) \<and>
        first_sent ?init schedule = Some e \<and>
        (\<exists>i. Recv i (Inl e) \<in> set schedule) \<and>
        cancelled s \<and>
        (\<forall>more s'. run s more = Some s' \<longrightarrow>
           returned s' = Some e \<and> dispatched s' = dispatched s \<and> cancelled s' \<and>
           set (invoked s') \<subseteq> set (dispatched s) \<and>
           SubscribePartitions sess replyTo msgID now name cgroup (schedule @ more)
             = Some (Failed e, dispatched s) \<and>
           (\<forall>i. i < length ids \<and> recvs s' ! i = AtReceive \<longrightarrow>
              (\<exists>t. run s' [Recv i (Inl Canceled), SendErr i] = Some t \<and> recvs t ! i = Exited)))"
    if e: "returned s = Some e" for e
  proof -
    have a: "SubscribePartitions sess replyTo msgID now name cgroup schedule = Some (Failed e, dispatched s)"
      using assms e by (simp add: SubscribePartitions_def)
    have b: "first_sent ?init schedule = Some e"
      using run_first_sent [OF assms(3) _ _ e] by (simp add: fanin_init_facts)
    from run_errors_held [OF assms(3)] have "errors_held s \<subseteq> yielded schedule"
      by (simp add: fanin_init_facts)
    moreover from e have "e \<in> errors_held s"
      by (simp add: errors_held_def)
    ultimately have "e \<in> yielded schedule"
      by blast
    then have c: "\<exists>i. Recv i (Inl e) \<in> set schedule"
      by (simp add: yielded_def)
    have d: "cancelled s"
      using run_cancelled [OF assms(3)] e by (simp add: fanin_init_facts)
    have f: "returned s' = Some e \<and> dispatched s' = dispatched s \<and> cancelled s' \<and>
           set (invoked s') \<subseteq> set (dispatched s) \<and>
           SubscribePartitions sess replyTo msgID now name cgroup (schedule @ more)
             = Some (Failed e, dispatched s) \<and>
           (\<forall>i. i < length ids \<and> recvs s' ! i = AtReceive \<longrightarrow>
              (\<exists>t. run s' [Recv i (Inl Canceled), SendErr i] = Some t \<and> recvs t ! i = Exited))"
      if m: "run s more = Some s'" for more s'
    proof -
      from run_after_return [OF e m] d have
        k: "returned s' = Some e" "dispatched s' = dispatched s" and d': "cancelled s'"
        by simp_all
      from run_callbacks [OF m cb] k have cb': "set (invoked s') \<subseteq> set (dispatched s)"
        by simp
      from run_exited [OF m inv] len have
        inv': "length (errc s') \<le> exited s'" and len': "length (recvs s') = length ids"
        by simp_all
      have x: "\<exists>t. run s' [Recv i (Inl Canceled), SendErr i] = Some t \<and> recvs t ! i = Exited"
        if "i < length ids" "recvs s' ! i = AtReceive" for i
      proof -
        from that(1) len' have "i < length (recvs s')"
          by simp
        from receive_loop_can_exit [OF inv' this that(2) d'] show ?thesis .
      qed
      have "SubscribePartitions sess replyTo msgID now name cgroup (schedule @ more)
             = Some (Failed e, dispatched s)"
        using k assms m by (simp add: SubscribePartitions_def run_append)
      with k d' cb' x show ?thesis
        by blast
    qed
    from a b c d f show ?thesis by blast
  qed
  from progress ctx result show ?thesis by blast
qed

theorem SubscribePartitions_first_error_wins_witness:
  "SubscribePartitions (broker (management_response ''msg-1'' [''0'', ''1''])) ''reply-1'' ''msg-1''
      clock ''telemetry'' ''$Default'' scenario = Some (Failed detached, [event ''M1'']) \<and>
   SubscribePartitions (broker (management_response ''msg-1'' [''0'', ''1''])) ''reply-1'' ''msg-1''
      clock ''telemetry'' ''$Default'' (scenario @ [Recv 1 (Inl Canceled), SendErr 1, Invoke 0])
        = Some (Failed detached, [event ''M1'']) \<and>
   first_sent (fanin_init 2) scenario = Some detached"
proof -
  let ?s = "\<lparr> recvs = [Exited, AtReceive], msgc = [event ''M2''], errc = [],
            accepted = [event ''M1'', event ''M2''], dispatched = [event ''M1''],
            pending = [event ''M1''], invoked = [],
            cancelled = True, returned = Some detached \<rparr>"
  obtain rs where rs: "open_receivers (broker (management_response ''msg-1'' [''0'', ''1''])) clock
      ''telemetry'' ''$Default'' 0 [''0'', ''1''] = Inr rs"
    using receivers_scenario by blast
  have more: "run ?s [Recv 1 (Inl Canceled), SendErr 1, Invoke 0] \<noteq> None"
    by simp
  from SubscribePartitions_first_error_wins [OF discovery_scenario rs run_scenario] more
  show ?thesis
    by (auto simp: numeral_2_eq_2)
qed

section \<open>Properties of package iotdevice\<close>

subsection \<open>Connect\<close>

text \<open>
  Claim C3. \<open>Connect\<close> on a client that is ready returns the error "already connected" and
  leaves the client as it was, without a call of the transport. \<open>Connect\<close> on a client that
  is not ready, when the transport's connect fails with \<open>e\<close>, returns \<open>e\<close> and leaves the
  client not ready (and as closed as it was); the next \<open>Connect\<close> calls the transport again,
  returns what it returns and makes the client ready exactly when it succeeds.
\<close>

theorem Connect_single_shot:
  "(ready c \<longrightarrow> Connect env c = (Some (ErrorsNew ''already connected''), c)) \<and>
   (\<not> ready c \<and> tr_Connect env = Some e \<longrightarrow>
      fst (Connect env c) = Some e \<and>
      \<not> ready (snd (Connect env c)) \<and>
      done_ch (snd (Connect env c)) = done_ch c \<and>
      (\<forall>env'. fst (Connect env' (snd (Connect env c))) = tr_Connect env' \<and>
              ready (snd (Connect env' (snd (Connect env c)))) = (tr_Connect env' = None) \<and>
              effects (snd (Connect env' (snd (Connect env c)))) = effects c @ [TrConnect, TrConnect]))"
  by (auto simp: Connect_def split: option.splits)

theorem Connect_single_shot_witness:
  "Connect env_ok (snd (Connect env_ok new_Client))
     = (Some (ErrorsNew ''already connected''), snd (Connect env_ok new_Client)) \<and>
   fst (Connect (env_ok\<lparr>tr_Connect := Some refused\<rparr>) new_Client) = Some refused \<and>
   \<not> ready (snd (Connect (env_ok\<lparr>tr_Connect := Some refused\<rparr>) new_Client)) \<and>
   fst (Connect env_ok (snd (Connect (env_ok\<lparr>tr_Connect := Some refused\<rparr>) new_Client))) = None \<and>
   ready (snd (Connect env_ok (snd (Connect (env_ok\<lparr>tr_Connect := Some refused\<rparr>) new_Client))))"
proof -
  have r: "ready (snd (Connect env_ok new_Client))"
    by (simp add: Connect_def env_ok_def new_Client_def)
  have u: "\<not> ready new_Client \<and> tr_Connect (env_ok\<lparr>tr_Connect := Some refused\<rparr>) = Some refused"
    by (simp add: new_Client_def)
  have k: "tr_Connect env_ok = None"
    by (simp add: env_ok_def)
  show ?thesis
    using Connect_single_shot [of "snd (Connect env_ok new_Client)" env_ok refused]
      Connect_single_shot [of new_Client "env_ok\<lparr>tr_Connect := Some refused\<rparr>" refused] r u k
    by simp
qed

subsection \<open>The connection check\<close>

lemma ready_Client_eq: "ready_Client = \<lparr> ready = True, done_ch = False, effects = [TrConnect] \<rparr>"
  by (simp add: ready_Client_def Connect_def env_ok_def new_Client_def)

lemma closed_Client_eq:
  "closed_Client =
     \<lparr> ready = True, done_ch = True,
       effects = [TrConnect, EvMuxClose ErrClosed, TsMuxClose ErrClosed, TrClose] \<rparr>"
  by (simp add: closed_Client_def Close_def ready_Client_eq env_ok_def)

lemma checkConnection_cases:
  "checkConnection c ctx =
     (if ready c then [None] else []) @ (if done_ch c then [Some ErrClosed] else []) @
     (case ctx of None \<Rightarrow> [] | Some e \<Rightarrow> [Some e])"
  by (simp add: checkConnection_def go_select_def split: option.splits)

text \<open>
  On a client that was closed without ever being ready, with a context that is not done,
  the check has one result, the error \<open>ErrClosed\<close>, and each of the six operations returns
  it and calls nothing.
\<close>

lemma closed_never_ready:
  assumes "done_ch c" and "\<not> ready c"
  shows "SendEvent env c None payload opts = [(Some ErrClosed, c)]"
    and "SubscribeEvents env c None = [(Inl ErrClosed, c)]"
    and "RegisterMethod env c None name = [(Some ErrClosed, c)]"
    and "RetrieveTwinState env c None = [(Inl ErrClosed, c)]"
    and "UpdateTwinState env c None s = [((0, Some ErrClosed), c)]"
    and "SubscribeTwinUpdates env c None = [(Inl ErrClosed, c)]"
  using assms
  by (simp_all add: SendEvent_def SubscribeEvents_def RegisterMethod_def RetrieveTwinState_def
      UpdateTwinState_def SubscribeTwinUpdates_def checkConnection_cases)

text \<open>
  On a client that is neither ready nor closed, with a context that is done with \<open>e\<close>, each
  of the six operations returns \<open>e\<close> and calls nothing.
\<close>

lemma cancelled_before_ready:
  assumes "\<not> done_ch c" and "\<not> ready c"
  shows "SendEvent env c (Some e) payload opts = [(Some e, c)]"
    and "SubscribeEvents env c (Some e) = [(Inl e, c)]"
    and "RegisterMethod env c (Some e) name = [(Some e, c)]"
    and "RetrieveTwinState env c (Some e) = [(Inl e, c)]"
    and "UpdateTwinState env c (Some e) s = [((0, Some e), c)]"
    and "SubscribeTwinUpdates env c (Some e) = [(Inl e, c)]"
  using assms
  by (simp_all add: SendEvent_def SubscribeEvents_def RegisterMethod_def RetrieveTwinState_def
      UpdateTwinState_def SubscribeTwinUpdates_def checkConnection_cases)

text \<open>
  On a client that is ready and closed both cases of the select can be taken, whatever the
  context: each of the six operations can return \<open>ErrClosed\<close> with nothing called, and each
  can pass the check and go on to its calls.
\<close>

lemma closed_after_ready:
  assumes "done_ch c" and "ready c"
  shows "set (SendEvent env c None payload opts) =
           {(Some ErrClosed, c), hd (SendEvent env c None payload opts)}"
    and "set (SubscribeEvents env c None) = {(Inl ErrClosed, c), hd (SubscribeEvents env c None)}"
    and "set (RegisterMethod env c None name) = {(Some ErrClosed, c), hd (RegisterMethod env c None name)}"
    and "set (RetrieveTwinState env c None) = {(Inl ErrClosed, c), hd (RetrieveTwinState env c None)}"
    and "set (UpdateTwinState env c None s) = {((0, Some ErrClosed), c), hd (UpdateTwinState env c None s)}"
    and "set (SubscribeTwinUpdates env c None) = {(Inl ErrClosed, c), hd (SubscribeTwinUpdates env c None)}"
    and "checkConnection c None = [None, Some ErrClosed]"
  using assms
  by (auto simp: SendEvent_def SubscribeEvents_def RegisterMethod_def RetrieveTwinState_def
      UpdateTwinState_def SubscribeTwinUpdates_def checkConnection_cases)

text \<open>
  Claim C1, at the input where the code departs from it. The client has connected and has
  then been closed, so both channels are closed and the select of \<open>checkConnection\<close> can take
  either case. \<open>SendEvent\<close> with a context that is not done and the payload "hi" has two
  possible results: nil after the message has gone to the closed transport, and \<open>ErrClosed\<close>.
\<close>

theorem SendEvent_after_Close:
  "SendEvent env_ok closed_Client None (Some [104, 105]) [] =
     [(None, closed_Client\<lparr>effects := effects closed_Client @
               [TrSend (new_message (Some [104, 105])), LoggerDebugf (new_message (Some [104, 105]))]\<rparr>),
      (Some ErrClosed, closed_Client)]"
  by (simp add: SendEvent_def checkConnection_cases closed_Client_eq env_ok_def)

subsection \<open>SendEvent and the payload\<close>

text \<open>
  The claim C9 as the specification states it fails: an empty payload that is not nil is
  sent and the call returns nil. The second and third equation show the two other ways in
  which a call on a ready client does not reach the transport: an option that fails, and a
  context that is already done (the select can take its case).
\<close>

theorem SendEvent_empty_payload_counterexample:
  "SendEvent env_ok ready_Client None (Some []) [] =
     [(None, ready_Client\<lparr>effects := effects ready_Client @
               [TrSend (new_message (Some [])), LoggerDebugf (new_message (Some []))]\<rparr>)] \<and>
   SendEvent env_ok ready_Client None (Some [1]) [failing_option] =
     [(Some (External ''bad option''), ready_Client)] \<and>
   SendEvent env_ok ready_Client (Some Canceled) (Some [1]) [] =
     [(None, ready_Client\<lparr>effects := effects ready_Client @
               [TrSend (new_message (Some [1])), LoggerDebugf (new_message (Some [1]))]\<rparr>),
      (Some Canceled, ready_Client)]"
  by (simp add: SendEvent_def checkConnection_cases ready_Client_eq env_ok_def failing_option_def)

text \<open>
  Claim C9, amended. With a nil payload every result of \<open>SendEvent\<close> is an error and the
  client is unchanged (nothing is sent); the call returns whenever the client is ready or
  closed or the context is done; on a ready client that is not closed, with a context that
  is not done, the error is "payload is nil". With a payload that is not nil (empty or
  not), on a ready client that is not closed, with a context that is not done and options
  that all succeed, the message with the options applied goes to the transport and the
  call returns what the transport returns.
\<close>

theorem SendEvent_payload:
  "(\<forall>x \<in> set (SendEvent env c ctx None opts). fst x \<noteq> None \<and> snd x = c) \<and>
   (ready c \<or> done_ch c \<or> ctx \<noteq> None \<longrightarrow> SendEvent env c ctx None opts \<noteq> []) \<and>
   (ready c \<and> \<not> done_ch c \<and> ctx = None \<longrightarrow>
      SendEvent env c ctx None opts = [(Some (ErrorsNew ''payload is nil''), c)]) \<and>
   (ready c \<and> \<not> done_ch c \<and> ctx = None \<and> apply_opts opts (new_message (Some p)) = Inr msg \<longrightarrow>
      SendEvent env c ctx (Some p) opts =
        [(tr_Send env msg,
          c\<lparr>effects := effects c @
              (if tr_Send env msg = None then [TrSend msg, LoggerDebugf msg] else [TrSend msg])\<rparr>)])"
  by (auto simp: SendEvent_def checkConnection_cases ErrClosed_def split: option.splits)

theorem SendEvent_payload_witness:
  "SendEvent env_ok ready_Client None None [WithSendMessageID ''m1''] =
     [(Some (ErrorsNew ''payload is nil''), ready_Client)] \<and>
   SendEvent env_ok ready_Client None (Some [104, 105]) [WithSendMessageID ''m1''] =
     [(None,
       ready_Client\<lparr>effects := effects ready_Client @
         [TrSend ((new_message (Some [104, 105]))\<lparr>cm_MessageID := ''m1''\<rparr>),
          LoggerDebugf ((new_message (Some [104, 105]))\<lparr>cm_MessageID := ''m1''\<rparr>)]\<rparr>)]"
proof -
  have r: "ready ready_Client \<and> \<not> done_ch ready_Client"
    by (simp add: ready_Client_eq)
  have o: "apply_opts [WithSendMessageID ''m1''] (new_message (Some [104, 105]))
             = Inr ((new_message (Some [104, 105]))\<lparr>cm_MessageID := ''m1''\<rparr>)"
    by (simp add: WithSendMessageID_def)
  have t: "tr_Send env_ok ((new_message (Some [104, 105]))\<lparr>cm_MessageID := ''m1''\<rparr>) = None"
    by (simp add: env_ok_def)
  show ?thesis
    using SendEvent_payload [of env_ok ready_Client None "[WithSendMessageID ''m1'']" "[104, 105]"
        "(new_message (Some [104, 105]))\<lparr>cm_MessageID := ''m1''\<rparr>"] r o t
    by simp
qed

subsection \<open>The version of a twin state\<close>

lemma float64_to_int_zero: "float64_to_int impl (Finite 0) = 0"
  by (simp add: float64_to_int_def)

text \<open>
  Claim C10. \<open>Version\<close> has a value for every twin state (the model has no branch that
  panics, as the two-valued type assertion has none). It is 0 when the value under
  \<open>$version\<close> is not a \<open>float64\<close>, in particular when the key is absent; otherwise it is the
  conversion of that \<open>float64\<close> to \<open>int\<close>, which for a whole number in the range of \<open>int\<close>
  is the number itself.
\<close>

theorem Version_total:
  "((\<forall>f. index s ''$version'' \<noteq> VFloat64 f) \<longrightarrow> Version impl s = 0) \<and>
   (map_of s ''$version'' = None \<longrightarrow> Version impl s = 0) \<and>
   (index s ''$version'' = VFloat64 f \<longrightarrow> Version impl s = float64_to_int impl f) \<and>
   (index s ''$version'' = VFloat64 (Finite (of_int n)) \<and> - (2 ^ 63) \<le> n \<and> n < 2 ^ 63 \<longrightarrow>
      Version impl s = n)"
proof -
  have a: "(\<forall>f. index s ''$version'' \<noteq> VFloat64 f) \<Longrightarrow> Version impl s = 0"
    by (cases "index s ''$version''") (simp_all add: Version_def float64_to_int_zero)
  have b: "map_of s ''$version'' = None \<Longrightarrow> \<forall>f. index s ''$version'' \<noteq> VFloat64 f"
    by (simp add: index_def)
  have c: "index s ''$version'' = VFloat64 f \<Longrightarrow> Version impl s = float64_to_int impl f"
    by (simp add: Version_def)
  have d: "index s ''$version'' = VFloat64 (Finite (of_int n)) \<Longrightarrow> - (2 ^ 63) \<le> n \<Longrightarrow> n < 2 ^ 63
             \<Longrightarrow> Version impl s = n"
    by (simp add: Version_def float64_to_int_def)
  from a b c d show ?thesis by auto
qed

theorem Version_total_witness:
  "Version impl_amd64 [(''temp'', VFloat64 (Finite 21)), (''$version'', VFloat64 (Finite 4))] = 4 \<and>
   Version impl_amd64 [(''temp'', VFloat64 (Finite 21))] = 0 \<and>
   Version impl_amd64 [(''$version'', VString ''4'')] = 0 \<and>
   Version impl_amd64 [(''$version'', VInt 4)] = 0"
proof -
  have a: "Version impl_amd64 [(''temp'', VFloat64 (Finite 21)), (''$version'', VFloat64 (Finite 4))] = 4"
    using Version_total [of "[(''temp'', VFloat64 (Finite 21)), (''$version'', VFloat64 (Finite 4))]"
        impl_amd64 "Finite 4" 4]
    by (simp add: index_def)
  have b: "Version impl_amd64 [(''temp'', VFloat64 (Finite 21))] = 0"
    using Version_total [of "[(''temp'', VFloat64 (Finite 21))]" impl_amd64]
    by (simp add: index_def)
  have c: "Version impl_amd64 [(''$version'', VString ''4'')] = 0"
    using Version_total [of "[(''$version'', VString ''4'')]" impl_amd64]
    by (simp add: index_def)
  have d: "Version impl_amd64 [(''$version'', VInt 4)] = 0"
    using Version_total [of "[(''$version'', VInt 4)]" impl_amd64]
    by (simp add: index_def)
  from a b c d show ?thesis by simp
qed

section \<open>Closing the two clients\<close>

lemma Close_calls_closed: "done_ch c \<Longrightarrow> Close_calls envs c = (replicate (length envs) None, c)"
  by (induction envs) (simp_all add: Close_def)

lemma eventhub_Close_calls_closed:
  "eh_done c \<Longrightarrow> eventhub_Close_calls xs c = (replicate (length xs) None, c)"
  by (induction xs) (simp_all add: eventhub_Close_def)

text \<open>
  Claim C4. In a run of one or more calls of \<open>Close\<close> on a client that is not closed, the
  first call does the teardown and returns its result; every later call returns nil and
  changes nothing, so the client after the run is the client after the first call. The
  teardown of the device client closes the multiplexers of events and of twin updates
  with \<open>ErrClosed\<close> and closes the transport; that of the eventhub client closes the
  session and, when that succeeds, the connection. On a client that is closed already
  every call returns nil and changes nothing.
\<close>

theorem Close_idempotent:
  "(\<not> done_ch c \<longrightarrow>
      Close_calls (env # envs) c =
        (tr_Close env # replicate (length envs) None,
         c\<lparr>done_ch := True,
           effects := effects c @ [EvMuxClose ErrClosed, TsMuxClose ErrClosed, TrClose]\<rparr>)) \<and>
   (done_ch c \<longrightarrow> Close_calls envs c = (replicate (length envs) None, c)) \<and>
   (\<not> eh_done d \<longrightarrow>
      eventhub_Close_calls ((sess_close, conn_close) # xs) d =
        ((case sess_close of Some e \<Rightarrow> Some e | None \<Rightarrow> conn_close) # replicate (length xs) None,
         d\<lparr>eh_done := True,
           eh_effects := eh_effects d @
             (case sess_close of Some e \<Rightarrow> [SessClose] | None \<Rightarrow> [SessClose, ConnClose])\<rparr>)) \<and>
   (eh_done d \<longrightarrow> eventhub_Close_calls xs d = (replicate (length xs) None, d))"
proof -
  have a: "\<not> done_ch c \<Longrightarrow>
      Close_calls (env # envs) c =
        (tr_Close env # replicate (length envs) None,
         c\<lparr>done_ch := True,
           effects := effects c @ [EvMuxClose ErrClosed, TsMuxClose ErrClosed, TrClose]\<rparr>)"
    by (simp add: Close_def Close_calls_closed)
  have b: "\<not> eh_done d \<Longrightarrow>
      eventhub_Close_calls ((sess_close, conn_close) # xs) d =
        ((case sess_close of Some e \<Rightarrow> Some e | None \<Rightarrow> conn_close) # replicate (length xs) None,
         d\<lparr>eh_done := True,
           eh_effects := eh_effects d @
             (case sess_close of Some e \<Rightarrow> [SessClose] | None \<Rightarrow> [SessClose, ConnClose])\<rparr>)"
    by (cases sess_close) (simp_all add: eventhub_Close_def eventhub_Close_calls_closed)
  from a b show ?thesis
    by (simp add: Close_calls_closed eventhub_Close_calls_closed)
qed

theorem Close_idempotent_witness:
  "Close_calls [env_ok, env_ok, env_ok] new_Client =
     ([None, None, None],
      \<lparr> ready = False, done_ch = True,
        effects = [EvMuxClose ErrClosed, TsMuxClose ErrClosed, TrClose] \<rparr>) \<and>
   eventhub_Close_calls [(None, None), (None, None), (None, None)] new_eventhub_Client =
     ([None, None, None], \<lparr> eh_done = True, eh_effects = [SessClose, ConnClose] \<rparr>)"
  using Close_idempotent [of new_Client env_ok "[env_ok, env_ok]" new_eventhub_Client None None
      "[(None, None), (None, None)]"]
  by (simp add: new_Client_def new_eventhub_Client_def env_ok_def)

end
